theory Spec2Isabelle
  imports Main "HOL-Library.Extended_Nat" "HOL-Library.Code_Target_Nat"
begin

section \<open>JavaScript numbers\<close>

text \<open>
  The numbers the program computes with are frame numbers: non-negative whole numbers read
  from file names, held in IEEE doubles. A double that holds a non-negative whole number,
  or \<^verbatim>\<open>Infinity\<close>, is a value of \<open>enat\<close>. \<open>roundToDouble n\<close> is the double
  nearest to the natural number \<open>n\<close> (ties to the even mantissa, \<^verbatim>\<open>Infinity\<close> from
  \<open>2 ^ 1024 - 2 ^ 970\<close> on): a number of at most 53 bits, that is one below
  \<open>2 ^ 53 = 9007199254740992\<close>, is a double; of a longer one 53 significant bits are
  kept, and a result of more than 1024 bits is \<^verbatim>\<open>Infinity\<close>. \<open>bitLength n\<close> is the
  number of bits of \<open>n\<close>.
\<close>

fun bitLength :: "nat \<Rightarrow> nat" where
  "bitLength n = (if n = 0 then 0 else Suc (bitLength (n div 2)))"

declare bitLength.simps [simp del]

definition roundToDouble :: "nat \<Rightarrow> enat" where
  "roundToDouble n =
     (if bitLength n \<le> 53 then enat n
      else (let sh = bitLength n - 53;
                q = n div 2 ^ sh;
                r = n mod 2 ^ sh;
                half = 2 ^ (sh - 1);
                q' = (if r > half \<or> (r = half \<and> odd q) then q + 1 else q)
            in if bitLength q' + sh > 1024 then \<infinity> else enat (q' * 2 ^ sh)))"

text \<open>\<^verbatim>\<open>x + 1\<close> on such a double: the exact sum, rounded.\<close>

definition plusOne :: "enat \<Rightarrow> enat" where
  "plusOne x = (case x of enat n \<Rightarrow> roundToDouble (n + 1) | \<infinity> \<Rightarrow> \<infinity>)"

section \<open>Frame files in the temp directory (src/timelapse/index.ts)\<close>

text \<open>
  The capture manager recognises a frame by its file name only:
  \<^verbatim>\<open>file.startsWith("img_") && file.endsWith(".jpg")\<close>.
  The frame number is read with the unanchored regular expression
  \<^verbatim>\<open>/img_(\d+)\.jpg/\<close> and \<^verbatim>\<open>parseInt(match[1], 10)\<close>; a name the expression
  does not match counts as frame 0. \<^verbatim>\<open>parseInt\<close> of a run of decimal digits is the
  double nearest to the number the digits write.
\<close>

definition startsWith :: "string \<Rightarrow> string \<Rightarrow> bool" where
  "startsWith p s \<longleftrightarrow> take (length p) s = p"

definition endsWith :: "string \<Rightarrow> string \<Rightarrow> bool" where
  "endsWith p s \<longleftrightarrow> length p \<le> length s \<and> drop (length s - length p) s = p"

definition isFrameFile :: "string \<Rightarrow> bool" where
  "isFrameFile file \<longleftrightarrow> startsWith ''img_'' file \<and> endsWith ''.jpg'' file"

definition isDigit :: "char \<Rightarrow> bool" where
  "isDigit c \<longleftrightarrow> c \<in> set ''0123456789''"

definition digitVal :: "char \<Rightarrow> nat" where
  "digitVal c = of_char c - 48"

definition decimalValue :: "string \<Rightarrow> nat" where
  "decimalValue ds = foldl (\<lambda>n c. 10 * n + digitVal c) 0 ds"

definition parseInt :: "string \<Rightarrow> enat" where
  "parseInt ds = roundToDouble (decimalValue ds)"

text \<open>
  One attempt of the regular expression at the head of the string: the literal
  \<^verbatim>\<open>img_\<close>, the longest run of digits (which must not be empty), the literal
  \<^verbatim>\<open>.jpg\<close>. A shorter run of digits is followed by a digit, so backtracking never
  finds a match the longest run misses.
\<close>

definition matchFrameAt :: "string \<Rightarrow> string option" where
  "matchFrameAt s =
     (if take 4 s = ''img_''
      then (let r = drop 4 s; ds = takeWhile isDigit r; rest = dropWhile isDigit r
            in if ds \<noteq> [] \<and> take 4 rest = ''.jpg'' then Some ds else None)
      else None)"

fun matchFrame :: "string \<Rightarrow> string option" where
  "matchFrame [] = None"
| "matchFrame (c # cs) =
     (case matchFrameAt (c # cs) of Some ds \<Rightarrow> Some ds | None \<Rightarrow> matchFrame cs)"

definition frameNumber :: "string \<Rightarrow> enat" where
  "frameNumber file = (case matchFrame file of Some ds \<Rightarrow> parseInt ds | None \<Rightarrow> 0)"

section \<open>The world outside the program\<close>

text \<open>
  The program acts on a directory of frame files, on ffmpeg subprocesses, on the encoder's
  output and on the notification command. These are the fields of \<open>world\<close>:
  \<^item> \<open>files\<close> is what \<^verbatim>\<open>readdirSync(tempDir)\<close> lists; \<open>None\<close> when it throws
    (the directory is missing);
  \<^item> \<open>locked\<close> holds the names for which \<^verbatim>\<open>unlinkSync\<close> throws (the file is not
    ours to delete, say); such a file stays in the directory;
  \<^item> \<open>argLimit\<close> is the number of arguments the JavaScript engine accepts in one
    call: a spread call with more throws \<^verbatim>\<open>RangeError\<close>;
  \<^item> \<open>procs\<close> holds every capture subprocess the manager has spawned, in order, with the
    \<^verbatim>\<open>-start_number\<close> it was given; a handle is an index into this list. A child is
    \<open>Running\<close> until its \<^verbatim>\<open>exit\<close> event is delivered, whatever signals it got;
  \<^item> \<open>signals\<close> holds every \<^verbatim>\<open>kill\<close> the manager has sent, with the number of
    milliseconds since the \<^verbatim>\<open>stopCapture\<close> that sends it was entered;
  \<^item> \<open>stopWaiters\<close> holds the children on which a \<^verbatim>\<open>stopCapture\<close> has registered
    its \<^verbatim>\<open>exit\<close> handler and whose exit has not come; \<open>timers\<close> counts the
    5000 ms timers of \<^verbatim>\<open>stopCapture\<close> that have not fired (none is ever cancelled);
  \<^item> \<open>videos\<close> holds the output paths the encoder has written, \<open>notifications\<close> the
    output paths the notification command has been run for;
  \<^item> \<open>console\<close> is what the program has logged.
\<close>

datatype signal = SIGTERM | SIGKILL

datatype proc_status = Running | Exited | SpawnFailed

text \<open>
  \<^verbatim>\<open>spawn\<close> of child_process either throws, or returns a handle. A handle whose child
  could not be started (ffmpeg is not installed, say) emits \<^verbatim>\<open>error\<close> later, after
  the caller has gone on.
\<close>

datatype spawn_result = SpawnThrows | SpawnErrorEvent | Spawned

datatype error =
    CaptureAlreadyInProgress
  | TempDirectoryFailed
  | SpawnException
  | OutputDirectoryFailed
  | NoFramesCaptured
  | AssembleError
  | AssembleFailed "int option"
  | ApiError
  | JobFetchError

datatype outcome = Resolved | Rejected error

datatype log_entry =
    LogResuming nat enat
  | LogCleared nat
  | LogCaptureError
  | LogCaptureExit int
  | LogPrinterState
  | LogStartupResume
  | LogStartupFresh
  | LogStartupStale
  | LogPrintStarted int
  | LogAlreadyCapturing
  | LogPrintFile string
  | LogNoFileInfo
  | LogResumeInfo nat
  | LogCaptureStarted
  | LogStartFailed error
  | LogPrintFinished "int option"
  | LogNoActiveCapture
  | LogCaptureStopped
  | LogAssembled string
  | LogCompleted string
  | LogCompletionError error
  | LogNotifying string
  | LogNotificationSent
  | LogNotificationFailed
  | LogApiError
  | LogWatchdogStarted int
  | LogWatchdogReset
  | LogWatchdogTriggered
  | LogWatchdogCleared

record world =
  files :: "string list option"
  locked :: "string list"
  argLimit :: nat
  procs :: "(enat \<times> proc_status) list"
  signals :: "(nat \<times> signal \<times> nat) list"
  stopWaiters :: "nat list"
  timers :: nat
  videos :: "string list"
  notifications :: "string list"
  console :: "log_entry list"

definition say :: "log_entry \<Rightarrow> world \<Rightarrow> world" where
  "say e w = w\<lparr>console := console w @ [e]\<rparr>"

definition running :: "world \<Rightarrow> nat \<Rightarrow> bool" where
  "running w p \<longleftrightarrow> p < length (procs w) \<and> snd (procs w ! p) = Running"

definition setStatus :: "nat \<Rightarrow> proc_status \<Rightarrow> world \<Rightarrow> world" where
  "setStatus p st w =
     (if p < length (procs w)
      then w\<lparr>procs := (procs w)[p := (fst (procs w ! p), st)]\<rparr>
      else w)"

definition kill :: "nat \<Rightarrow> signal \<Rightarrow> nat \<Rightarrow> world \<Rightarrow> world" where
  "kill p sg ms w = w\<lparr>signals := signals w @ [(p, sg, ms)]\<rparr>"

section \<open>TimelapseCapture (src/timelapse/index.ts)\<close>

record capture =
  captureProcess :: "nat option"
  isCapturing :: bool

definition newCapture :: capture where
  "newCapture = \<lparr>captureProcess = None, isCapturing = False\<rparr>"

definition frameFiles :: "world \<Rightarrow> string list" where
  "frameFiles w = (case files w of None \<Rightarrow> [] | Some fs \<Rightarrow> filter isFrameFile fs)"

definition getCapturedFrameCount :: "world \<Rightarrow> nat" where
  "getCapturedFrameCount w =
     (case files w of None \<Rightarrow> 0 | Some fs \<Rightarrow> length (filter isFrameFile fs))"

definition canResume :: "world \<Rightarrow> bool" where
  "canResume w \<longleftrightarrow> getCapturedFrameCount w > 0"

text \<open>
  \<^verbatim>\<open>getHighestFrameNumber()\<close>. Its \<^verbatim>\<open>catch\<close> returns 0 for whatever is thrown
  inside: by \<^verbatim>\<open>readdirSync\<close>, and by \<^verbatim>\<open>Math.max(...frameNumbers)\<close> when there
  are more frame numbers than one call takes arguments.
\<close>

definition getHighestFrameNumber :: "world \<Rightarrow> enat" where
  "getHighestFrameNumber w =
     (case files w of
        None \<Rightarrow> 0
      | Some fs \<Rightarrow>
          (let jpgFiles = filter isFrameFile fs
           in if length jpgFiles = 0 then 0
              else (let frameNumbers = map frameNumber jpgFiles
                    in if length frameNumbers > argLimit w then 0
                       else Max (set frameNumbers))))"

text \<open>
  The loop of \<^verbatim>\<open>clearFrames\<close> over the listing: a frame file is unlinked and counted,
  every other entry is passed over. The first \<^verbatim>\<open>unlinkSync\<close> that throws ends the
  loop: that file and all entries after it stay. The result is the listing that is left,
  and the count the loop ended with (\<open>None\<close> when it was left by the throw).
\<close>

fun unlinkFrames :: "string list \<Rightarrow> string list \<Rightarrow> string list \<times> nat option" where
  "unlinkFrames lk [] = ([], Some 0)"
| "unlinkFrames lk (file # rest) =
     (if isFrameFile file
      then (if file \<in> set lk then (file # rest, None)
            else (case unlinkFrames lk rest of (left, n) \<Rightarrow> (left, map_option Suc n)))
      else (case unlinkFrames lk rest of (left, n) \<Rightarrow> (file # left, n)))"

text \<open>
  \<^verbatim>\<open>clearFrames()\<close>: one \<^verbatim>\<open>try\<close> holds the listing, the loop and the log line,
  and its \<^verbatim>\<open>catch\<close> is empty. A directory that cannot be listed is left alone; when
  an unlink throws, the frames unlinked so far are gone, the others stay, and nothing is
  logged.
\<close>

definition clearFrames :: "world \<Rightarrow> world" where
  "clearFrames w =
     (case files w of
        None \<Rightarrow> w
      | Some fs \<Rightarrow>
          (case unlinkFrames (locked w) fs of
             (left, None) \<Rightarrow> w\<lparr>files := Some left\<rparr>
           | (left, Some clearedCount) \<Rightarrow>
               if clearedCount > 0 then say (LogCleared clearedCount) (w\<lparr>files := Some left\<rparr>)
               else w\<lparr>files := Some left\<rparr>))"

definition clearTempDirectory :: "world \<Rightarrow> world" where
  "clearTempDirectory w = clearFrames w"

text \<open>
  \<^verbatim>\<open>mkdirSync(dir, { recursive: true })\<close>: \<open>ok\<close> says whether the call returns; when
  it does, a missing directory has become an empty one and an existing one is unchanged.
\<close>

definition mkdirSync :: "bool \<Rightarrow> world \<Rightarrow> world option" where
  "mkdirSync ok w =
     (if ok then Some (case files w of None \<Rightarrow> w\<lparr>files := Some []\<rparr> | Some fs \<Rightarrow> w)
      else None)"

text \<open>
  \<^verbatim>\<open>startCapture(resumeIfPossible)\<close>. The environment decides whether the directory
  can be made and what \<^verbatim>\<open>spawn\<close> does. The handlers for the child's \<^verbatim>\<open>error\<close>
  and \<^verbatim>\<open>exit\<close> events are \<open>onError\<close> and \<open>onExit\<close> below.
\<close>

fun startCapture ::
  "bool \<Rightarrow> spawn_result \<Rightarrow> bool \<Rightarrow> world \<times> capture \<Rightarrow> outcome \<times> world \<times> capture" where
  "startCapture mkdirOk sp resumeIfPossible (w, c) =
     (if isCapturing c then (Rejected CaptureAlreadyInProgress, w, c)
      else case mkdirSync mkdirOk w of
        None \<Rightarrow> (Rejected TempDirectoryFailed, w, c)
      | Some w1 \<Rightarrow>
          (let existingFrameCount = getCapturedFrameCount w1;
               isResuming = (resumeIfPossible \<and> existingFrameCount > 0);
               startNumber = (if isResuming then plusOne (getHighestFrameNumber w1) else 1);
               w2 = (if isResuming then say (LogResuming existingFrameCount startNumber) w1
                     else clearTempDirectory w1)
           in case sp of
                SpawnThrows \<Rightarrow> (Rejected SpawnException, w2, c)
              | SpawnErrorEvent \<Rightarrow>
                  (Resolved, w2\<lparr>procs := procs w2 @ [(startNumber, SpawnFailed)]\<rparr>,
                   c\<lparr>captureProcess := Some (length (procs w2)), isCapturing := True\<rparr>)
              | Spawned \<Rightarrow>
                  (Resolved, w2\<lparr>procs := procs w2 @ [(startNumber, Running)]\<rparr>,
                   c\<lparr>captureProcess := Some (length (procs w2)), isCapturing := True\<rparr>)))"

text \<open>
  The \<^verbatim>\<open>error\<close> handler that \<^verbatim>\<open>startCapture\<close> registers on the child: it runs
  when the child could not be started.
\<close>

fun onError :: "world \<times> capture \<Rightarrow> world \<times> capture" where
  "onError (w, c) = (say LogCaptureError w, c\<lparr>isCapturing := False\<rparr>)"

text \<open>
  The \<^verbatim>\<open>exit\<close> handler that \<^verbatim>\<open>startCapture\<close> registers on the child; \<open>code\<close>
  is the exit code (\<open>None\<close> when a signal ended the child). Like every handler here it
  acts on the manager (\<^verbatim>\<open>this\<close>), not on the child it was registered on.
\<close>

fun onExit :: "int option \<Rightarrow> world \<times> capture \<Rightarrow> world \<times> capture" where
  "onExit code (w, c) =
     ((case code of
         None \<Rightarrow> w
       | Some n \<Rightarrow> if n \<noteq> 0 then say (LogCaptureExit n) w else w),
      c\<lparr>isCapturing := False\<rparr>)"

text \<open>
  \<^verbatim>\<open>stopCapture()\<close> in its three pieces. \<open>stopCaptureCall\<close> is what runs when it is
  called: the guard, SIGTERM to the child of the handle, and the registration of an
  \<^verbatim>\<open>exit\<close> handler on that child and of a 5000 ms timer. \<open>onStopExit\<close> is that
  handler, \<open>onStopTimeout\<close> the timer's callback; whichever runs first resolves the
  promise, and the other one still runs when its event comes.
\<close>

fun stopCaptureCall :: "world \<times> capture \<Rightarrow> world \<times> capture" where
  "stopCaptureCall (w, c) =
     (if \<not> isCapturing c \<or> captureProcess c = None then (w, c)
      else case captureProcess c of
        None \<Rightarrow> (w, c)
      | Some p \<Rightarrow>
          ((kill p SIGTERM 0 w)\<lparr>stopWaiters := stopWaiters w @ [p], timers := timers w + 1\<rparr>, c))"

fun onStopExit :: "world \<times> capture \<Rightarrow> world \<times> capture" where
  "onStopExit (w, c) = (w, c\<lparr>isCapturing := False, captureProcess := None\<rparr>)"

fun onStopTimeout :: "world \<times> capture \<Rightarrow> world \<times> capture" where
  "onStopTimeout (w, c) =
     ((case captureProcess c of None \<Rightarrow> w | Some q \<Rightarrow> kill q SIGKILL 5000 w),
      c\<lparr>isCapturing := False, captureProcess := None\<rparr>)"

text \<open>
  The events that run these handlers. The \<^verbatim>\<open>exit\<close> event of child \<open>p\<close> runs the
  handlers registered on \<open>p\<close> in the order of their registration: the one of
  \<^verbatim>\<open>startCapture\<close>, then the one of each \<^verbatim>\<open>stopCapture\<close> that waits for \<open>p\<close>.
  A timer event runs the callback of one pending timer.
\<close>

fun exitEvent :: "nat \<Rightarrow> int option \<Rightarrow> world \<times> capture \<Rightarrow> world \<times> capture" where
  "exitEvent p code (w, c) =
     (let (w1, c1) = onExit code (setStatus p Exited w, c)
      in if p \<in> set (stopWaiters w1)
         then onStopExit (w1\<lparr>stopWaiters := removeAll p (stopWaiters w1)\<rparr>, c1)
         else (w1, c1))"

fun timerEvent :: "world \<times> capture \<Rightarrow> world \<times> capture" where
  "timerEvent (w, c) =
     (if timers w = 0 then (w, c) else onStopTimeout (w\<lparr>timers := timers w - 1\<rparr>, c))"

text \<open>
  \<^verbatim>\<open>stopCapture()\<close> from the call to the moment its promise resolves, when nothing
  else happens in between. \<open>exitAfter\<close> says when the child's \<^verbatim>\<open>exit\<close> event
  arrives, in milliseconds after SIGTERM, and with which exit code (\<open>None\<close>: it does not
  arrive). The result starts with the number of milliseconds the caller has waited. An
  exit before 5000 ms resolves the promise and leaves the timer pending; otherwise the
  timer resolves it at 5000 ms, sending SIGKILL, and the \<^verbatim>\<open>exit\<close> handler stays
  registered on the child, which is still running at that moment.
\<close>

definition exitsInGrace :: "(nat \<times> int option) option \<Rightarrow> (nat \<times> int option) option" where
  "exitsInGrace exitAfter =
     (case exitAfter of
        None \<Rightarrow> None
      | Some (d, code) \<Rightarrow> if d < 5000 then Some (d, code) else None)"

fun stopCapture ::
  "(nat \<times> int option) option \<Rightarrow> world \<times> capture \<Rightarrow> nat \<times> world \<times> capture" where
  "stopCapture exitAfter (w, c) =
     (if \<not> isCapturing c \<or> captureProcess c = None then (0, w, c)
      else case captureProcess c of
        None \<Rightarrow> (0, w, c)
      | Some p \<Rightarrow>
          (case exitsInGrace exitAfter of
             Some (d, code) \<Rightarrow> (d, exitEvent p code (stopCaptureCall (w, c)))
           | None \<Rightarrow> (5000, timerEvent (stopCaptureCall (w, c)))))"

definition isCurrentlyCapturing :: "capture \<Rightarrow> bool" where
  "isCurrentlyCapturing c = isCapturing c"

section \<open>assembleVideo (src/timelapse/index.ts)\<close>

text \<open>
  The encoder is a one-shot ffmpeg: its \<^verbatim>\<open>spawn\<close> throws, or it emits
  \<^verbatim>\<open>error\<close>, or it exits with a code (\<open>None\<close> when a signal ended it).
\<close>

datatype encoder_result = EncoderThrows | EncoderErrorEvent | EncoderExit "int option"

text \<open>
  \<^verbatim>\<open>assembleVideo(config, outputPath)\<close>: the output directory is made first, then
  the frames are counted by a fresh \<^verbatim>\<open>TimelapseCapture\<close> on the same temp directory,
  then the encoder runs.
\<close>

definition assembleVideo :: "bool \<Rightarrow> encoder_result \<Rightarrow> string \<Rightarrow> world \<Rightarrow> outcome \<times> world" where
  "assembleVideo outputDirOk enc outputPath w =
     (if \<not> outputDirOk then (Rejected OutputDirectoryFailed, w)
      else (let frameCount = getCapturedFrameCount w
            in if frameCount = 0 then (Rejected NoFramesCaptured, w)
               else case enc of
                      EncoderThrows \<Rightarrow> (Rejected AssembleError, w)
                    | EncoderErrorEvent \<Rightarrow> (Rejected AssembleError, w)
                    | EncoderExit code \<Rightarrow>
                        if code = Some 0
                        then (Resolved, say (LogAssembled outputPath) (w\<lparr>videos := videos w @ [outputPath]\<rparr>))
                        else (Rejected (AssembleFailed code), w)))"

section \<open>PrintMonitor (src/monitor/index.ts)\<close>

datatype PrinterState =
  IDLE | BUSY | PRINTING | PAUSED | FINISHED | STOPPED | ERROR | ATTENTION | READY

record StatusJob =
  job_id :: "int option"

record StatusResponse =
  printer_state :: PrinterState
  job :: "StatusJob option"

text \<open>
  Of the configuration the monitor reads \<^verbatim>\<open>watchdogTimeout\<close> (seconds, taken as a
  whole number) and \<^verbatim>\<open>timelapse.outputDirectory\<close>. Times are milliseconds.
\<close>

record config =
  watchdogTimeout :: int
  outputDirectory :: string

record monitor =
  timelapseCapture :: capture
  currentPrintId :: "int option"
  currentPrintFilename :: "string option"
  lastPrinterState :: "PrinterState option"
  watchdogExpiry :: "int option"
  isFirstCheck :: bool

definition newMonitor :: monitor where
  "newMonitor =
     \<lparr>timelapseCapture = newCapture, currentPrintId = None, currentPrintFilename = None,
      lastPrinterState = None, watchdogExpiry = None, isFirstCheck = True\<rparr>"

datatype notify_result = NotifyErrorEvent | NotifyExit "int option"

text \<open>
  What the collaborators answer during one poll tick:
  \<^item> \<open>getStatus\<close>: the status response, \<open>None\<close> when the request is rejected;
  \<^item> \<open>getJob\<close>: \<open>None\<close> when the request is rejected, else the
    \<^verbatim>\<open>file.display_name\<close> of the job when the job, its file and the name are there
    (the client's \<^verbatim>\<open>getJob\<close> is not part of the sources at hand);
  \<^item> \<open>tempDirOk\<close>, \<open>spawnCapture\<close>, \<open>captureExit\<close>: for \<open>startCapture\<close> and
    \<open>stopCapture\<close>;
  \<^item> \<open>outputDirOk\<close>, \<open>encoder\<close>: for \<open>assembleVideo\<close>; \<open>notifyExit\<close>: the
    notification command;
  \<^item> \<open>nowArm\<close>: \<^verbatim>\<open>Date.now()\<close> where the watchdog is started or reset;
    \<open>nowCheck\<close>: \<^verbatim>\<open>Date.now()\<close> in \<^verbatim>\<open>checkWatchdog\<close>;
    \<open>isoString\<close>: \<^verbatim>\<open>new Date().toISOString()\<close> in \<^verbatim>\<open>generateOutputPath\<close>;
  \<^item> \<open>cwd\<close>: \<^verbatim>\<open>process.cwd()\<close>, an absolute path.
\<close>

record env =
  getStatus :: "StatusResponse option"
  getJob :: "string option option"
  tempDirOk :: bool
  spawnCapture :: spawn_result
  captureExit :: "(nat \<times> int option) option"
  outputDirOk :: bool
  encoder :: encoder_result
  notifyExit :: notify_result
  nowArm :: int
  nowCheck :: int
  isoString :: string
  cwd :: string

subsection \<open>Output path\<close>

text \<open>
  A job id in a file name is printed as JavaScript prints a number. The id is a whole
  number; \<^verbatim>\<open>JSON.parse\<close> has rounded it to a double. Below \<open>10 ^ 21\<close>, that is
  with at most 21 digits, the digits are printed. From \<open>10 ^ 21\<close> on the exponent
  notation is used, with the fewest digits
  that still denote the same double (at most 17), the nearest such decimal when there are
  two, as in \<^verbatim>\<open>1.1805916207174113e+21\<close>.
\<close>

fun showNat :: "nat \<Rightarrow> string" where
  "showNat n =
     (if n < 10 then [char_of (48 + n)] else showNat (n div 10) @ [char_of (48 + n mod 10)])"

definition decimalOf :: "nat \<Rightarrow> nat \<Rightarrow> nat option" where
  "decimalOf x k =
     (let scale = 10 ^ (length (showNat x) - k);
          lo = (x div scale) * scale;
          hi = lo + scale;
          okLo = (roundToDouble lo = enat x);
          okHi = (roundToDouble hi = enat x)
      in if okLo \<and> okHi then Some (if x - lo \<le> hi - x then lo else hi)
         else if okLo then Some lo
         else if okHi then Some hi
         else None)"

definition shortestDecimal :: "nat \<Rightarrow> nat" where
  "shortestDecimal x = (case List.map_filter (decimalOf x) [1 ..< 18] of [] \<Rightarrow> x | v # vs \<Rightarrow> v)"

definition showExponential :: "nat \<Rightarrow> string" where
  "showExponential x =
     (let ds = showNat (shortestDecimal x);
          mantissa = rev (dropWhile (\<lambda>c. c = CHR ''0'') (rev ds))
      in take 1 mantissa @ (if length mantissa > 1 then CHR ''.'' # drop 1 mantissa else [])
           @ ''e+'' @ showNat (length ds - 1))"

definition showNumber :: "enat \<Rightarrow> string" where
  "showNumber x =
     (case x of
        enat n \<Rightarrow> if length (showNat n) \<le> 21 then showNat n else showExponential n
      | \<infinity> \<Rightarrow> ''Infinity'')"

definition showInt :: "int \<Rightarrow> string" where
  "showInt i =
     (if i < 0 then CHR ''-'' # showNumber (roundToDouble (nat (- i)))
      else showNumber (roundToDouble (nat i)))"

text \<open>\<^verbatim>\<open>.replace(/[:.]/g, "-").slice(0, -5)\<close> on the ISO time.\<close>

definition stamp :: "string \<Rightarrow> string" where
  "stamp isoTime =
     (let s = map (\<lambda>c. if c = CHR '':'' \<or> c = CHR ''.'' then CHR ''-'' else c) isoTime
      in take (length s - 5) s)"

text \<open>
  \<^verbatim>\<open>.replace(/\.[^/.]+$/, "")\<close>: the last dot and what follows it are dropped when
  what follows is not empty and holds no slash.
\<close>

definition stripExtension :: "string \<Rightarrow> string" where
  "stripExtension s =
     (let ext = takeWhile (\<lambda>c. c \<noteq> CHR ''.'') (rev s)
      in if length ext < length s \<and> ext \<noteq> [] \<and> CHR ''/'' \<notin> set ext
         then take (length s - length ext - 1) s
         else s)"

text \<open>\<^verbatim>\<open>.replace(/[<>:"/\\|?*]/g, "_")\<close>.\<close>

definition sanitize :: "string \<Rightarrow> string" where
  "sanitize s =
     map (\<lambda>c. if c \<in> {CHR ''<'', CHR ''>'', CHR '':'', CHR 0x22, CHR ''/'', CHR 0x5C,
                        CHR ''|'', CHR ''?'', CHR ''*''}
               then CHR ''_'' else c) s"

text \<open>
  \<^verbatim>\<open>resolve(dir, filename)\<close> of POSIX \<^verbatim>\<open>path\<close>: the file name when it is absolute,
  else the directory and the file name when the directory is absolute, else the working
  directory, the directory and the file name; then empty segments and \<^verbatim>\<open>.\<close> are
  dropped and \<^verbatim>\<open>..\<close> drops the segment before it (none at the root).
\<close>

fun splitSlash :: "string \<Rightarrow> string list" where
  "splitSlash [] = [[]]"
| "splitSlash (c # cs) =
     (case splitSlash cs of
        [] \<Rightarrow> [[c]]
      | seg # segs \<Rightarrow> if c = CHR ''/'' then [] # seg # segs else (c # seg) # segs)"

definition normalizeSegments :: "string list \<Rightarrow> string list" where
  "normalizeSegments segs =
     foldl (\<lambda>acc seg. if seg = [] \<or> seg = ''.'' then acc
                      else if seg = ''..'' then butlast acc
                      else acc @ [seg]) [] segs"

definition resolve :: "string \<Rightarrow> string \<Rightarrow> string \<Rightarrow> string" where
  "resolve workingDir dir filename =
     (let joined =
            (if take 1 filename = ''/'' then filename
             else if filename = [] then (if take 1 dir = ''/'' then dir else workingDir @ ''/'' @ dir)
             else if take 1 dir = ''/'' then dir @ ''/'' @ filename
             else workingDir @ ''/'' @ dir @ ''/'' @ filename);
          segs = normalizeSegments (splitSlash joined)
      in if segs = [] then ''/'' else concat (map (\<lambda>seg. CHR ''/'' # seg) segs))"

text \<open>
  \<^verbatim>\<open>generateOutputPath(jobId)\<close>. An empty file name and a job id of 0 are falsy.
\<close>

definition generateOutputPath :: "env \<Rightarrow> config \<Rightarrow> monitor \<Rightarrow> int option \<Rightarrow> string" where
  "generateOutputPath e cfg m jobId =
     (let timestamp = stamp (isoString e);
          filename =
            (case currentPrintFilename m of
               Some n \<Rightarrow>
                 if n \<noteq> []
                 then ''timelapse_'' @ sanitize (stripExtension n) @ ''_'' @ timestamp @ ''.mp4''
                 else ''timelapse_'' @ timestamp
                        @ (case jobId of
                             None \<Rightarrow> []
                           | Some j \<Rightarrow> if j \<noteq> 0 then ''_job'' @ showInt j else [])
                        @ ''.mp4''
             | None \<Rightarrow>
                 ''timelapse_'' @ timestamp
                   @ (case jobId of
                        None \<Rightarrow> []
                      | Some j \<Rightarrow> if j \<noteq> 0 then ''_job'' @ showInt j else [])
                   @ ''.mp4'')
      in resolve (cwd e) (outputDirectory cfg) filename)"

subsection \<open>Notification\<close>

text \<open>
  \<^verbatim>\<open>sendNotification(outputPath)\<close> never throws. The command line itself (the
  template with its two placeholders filled) is not modelled: the world records the
  output path the command was run for.
\<close>

definition sendNotification :: "env \<Rightarrow> string \<Rightarrow> world \<Rightarrow> world" where
  "sendNotification e outputPath w =
     (let w1 = say (LogNotifying outputPath) w
      in case notifyExit e of
           NotifyErrorEvent \<Rightarrow> say LogNotificationFailed w1
         | NotifyExit code \<Rightarrow>
             (let w2 = w1\<lparr>notifications := notifications w1 @ [outputPath]\<rparr>
              in if code = Some 0 then say LogNotificationSent w2
                 else say LogNotificationFailed w2))"

subsection \<open>Watchdog\<close>

fun startWatchdog :: "env \<Rightarrow> config \<Rightarrow> int \<Rightarrow> world \<times> monitor \<Rightarrow> world \<times> monitor" where
  "startWatchdog e cfg jobId (w, m) =
     (if watchdogTimeout cfg \<le> 0 then (w, m)
      else (say (LogWatchdogStarted jobId) w,
            m\<lparr>watchdogExpiry := Some (nowArm e + watchdogTimeout cfg * 1000)\<rparr>))"

fun resetWatchdog :: "env \<Rightarrow> config \<Rightarrow> world \<times> monitor \<Rightarrow> world \<times> monitor" where
  "resetWatchdog e cfg (w, m) =
     (if watchdogTimeout cfg \<le> 0 \<or> \<not> isCurrentlyCapturing (timelapseCapture m) then (w, m)
      else (say LogWatchdogReset w,
            m\<lparr>watchdogExpiry := Some (nowArm e + watchdogTimeout cfg * 1000)\<rparr>))"

fun clearWatchdog :: "world \<times> monitor \<Rightarrow> world \<times> monitor" where
  "clearWatchdog (w, m) = (say LogWatchdogCleared w, m\<lparr>watchdogExpiry := None\<rparr>)"

subsection \<open>Transitions\<close>

text \<open>
  \<^verbatim>\<open>stopTimelapseCapture()\<close> rethrows what \<^verbatim>\<open>stopCapture\<close> throws;
  \<open>stopCapture\<close> has no throwing path.
\<close>

fun stopTimelapseCapture :: "env \<Rightarrow> world \<times> monitor \<Rightarrow> world \<times> monitor" where
  "stopTimelapseCapture e (w, m) =
     (let (ms, w1, c1) = stopCapture (captureExit e) (w, timelapseCapture m)
      in (say LogCaptureStopped w1, m\<lparr>timelapseCapture := c1\<rparr>))"

fun handlePrintStarted ::
  "env \<Rightarrow> config \<Rightarrow> int \<Rightarrow> bool \<Rightarrow> world \<times> monitor \<Rightarrow> world \<times> monitor" where
  "handlePrintStarted e cfg jobId shouldResume (w, m) =
     (let w0 = say (LogPrintStarted jobId) w
      in if isCurrentlyCapturing (timelapseCapture m) then (say LogAlreadyCapturing w0, m)
         else case getJob e of
           None \<Rightarrow> (say (LogStartFailed JobFetchError) w0, m)
         | Some display_name \<Rightarrow>
             (let (w1, m1) =
                    (case display_name of
                       None \<Rightarrow> (say LogNoFileInfo w0, m)
                     | Some n \<Rightarrow>
                         if n \<noteq> [] then (say (LogPrintFile n) w0, m\<lparr>currentPrintFilename := Some n\<rparr>)
                         else (say LogNoFileInfo w0, m));
                  w2 = (if shouldResume \<and> canResume w1
                        then say (LogResumeInfo (getCapturedFrameCount w1)) w1
                        else if \<not> shouldResume then clearFrames w1 else w1)
              in case startCapture (tempDirOk e) (spawnCapture e) shouldResume
                        (w2, timelapseCapture m1) of
                   (Rejected err, w3, c3) \<Rightarrow>
                     (say (LogStartFailed err) w3, m1\<lparr>timelapseCapture := c3\<rparr>)
                 | (Resolved, w3, c3) \<Rightarrow>
                     startWatchdog e cfg jobId
                       (say LogCaptureStarted w3, m1\<lparr>timelapseCapture := c3\<rparr>)))"

fun handlePrintFinished ::
  "env \<Rightarrow> config \<Rightarrow> int option \<Rightarrow> world \<times> monitor \<Rightarrow> world \<times> monitor" where
  "handlePrintFinished e cfg jobId (w, m) =
     (let (w0, m0) = clearWatchdog (say (LogPrintFinished jobId) w, m)
      in if \<not> isCurrentlyCapturing (timelapseCapture m0)
         then (say LogNoActiveCapture w0, m0\<lparr>currentPrintFilename := None\<rparr>)
         else (let (w1, m1) = stopTimelapseCapture e (w0, m0);
                   outputPath = generateOutputPath e cfg m1 jobId
               in case assembleVideo (outputDirOk e) (encoder e) outputPath w1 of
                    (Rejected err, w2) \<Rightarrow>
                      (say (LogCompletionError err) w2, m1\<lparr>currentPrintFilename := None\<rparr>)
                  | (Resolved, w2) \<Rightarrow>
                      (say (LogCompleted outputPath)
                         (sendNotification e outputPath (clearFrames w2)),
                       m1\<lparr>currentPrintFilename := None\<rparr>)))"

text \<open>
  \<^verbatim>\<open>checkWatchdog()\<close> starts \<^verbatim>\<open>handlePrintFinished(this.currentPrintId)\<close> and does
  not await it; the model runs it to its end within the tick.
\<close>

fun checkWatchdog :: "env \<Rightarrow> config \<Rightarrow> world \<times> monitor \<Rightarrow> world \<times> monitor" where
  "checkWatchdog e cfg (w, m) =
     (if watchdogTimeout cfg \<le> 0 \<or> \<not> isCurrentlyCapturing (timelapseCapture m)
         \<or> watchdogExpiry m = None
      then (w, m)
      else if nowCheck e \<ge> the (watchdogExpiry m)
      then handlePrintFinished e cfg (currentPrintId m) (say LogWatchdogTriggered w, m)
      else (w, m))"

text \<open>
  The job id of a status response: \<^verbatim>\<open>status.job?.id || null\<close>, so an absent job,
  an absent id and the id 0 all give \<open>None\<close>.
\<close>

definition jobIdOf :: "StatusResponse \<Rightarrow> int option" where
  "jobIdOf status =
     (case job status of
        None \<Rightarrow> None
      | Some j \<Rightarrow> (case job_id j of None \<Rightarrow> None | Some n \<Rightarrow> if n = 0 then None else Some n))"

text \<open>
  \<^verbatim>\<open>checkStatus()\<close>, one poll tick, run to its end before the next one starts. Only
  \<^verbatim>\<open>getStatus\<close> can throw inside its \<^verbatim>\<open>try\<close>: the handlers catch their own
  failures, and the \<^verbatim>\<open>catch\<close> block itself cannot throw, so the tick always returns.
\<close>

fun checkStatus :: "env \<Rightarrow> config \<Rightarrow> world \<times> monitor \<Rightarrow> world \<times> monitor" where
  "checkStatus e cfg (w, m) =
     (case getStatus e of
        None \<Rightarrow> checkWatchdog e cfg (say LogApiError w, m)
      | Some status \<Rightarrow>
          (let currentState = printer_state status;
               currentJobId = jobIdOf status;
               w0 = say LogPrinterState w;
               previousState = lastPrinterState m;
               (w1, m1) =
                 (if isFirstCheck m
                  then (let m0 = m\<lparr>isFirstCheck := False\<rparr>
                        in if currentState = PRINTING \<and> currentJobId \<noteq> None
                           then (if canResume w0
                                 then handlePrintStarted e cfg (the currentJobId) True
                                        (say LogStartupResume w0, m0)
                                 else handlePrintStarted e cfg (the currentJobId) False
                                        (say LogStartupFresh w0, m0))
                           else (if canResume w0
                                 then (clearFrames (say LogStartupStale w0), m0)
                                 else (w0, m0)))
                  else if previousState \<noteq> Some PRINTING \<and> currentState = PRINTING
                          \<and> currentJobId \<noteq> None
                  then handlePrintStarted e cfg (the currentJobId) False (w0, m)
                  else if previousState = Some PRINTING \<and> currentState \<noteq> PRINTING
                  then handlePrintFinished e cfg currentJobId (w0, m)
                  else if isCurrentlyCapturing (timelapseCapture m) \<and> currentState = PRINTING
                  then resetWatchdog e cfg (w0, m)
                  else (w0, m))
           in checkWatchdog e cfg
                (w1, m1\<lparr>lastPrinterState := Some currentState, currentPrintId := currentJobId\<rparr>)))"

section \<open>Reachable states of the capture manager\<close>


text \<open>
  The states the manager can be in between two turns of the event loop. It starts with no
  child, no handler and no timer. A turn is a call of \<open>startCapture\<close>, a call of
  \<open>stopCapture\<close> (up to its \<^verbatim>\<open>await\<close>), a call of \<open>clearFrames\<close>, or an event:
  a child that could not be started emits \<^verbatim>\<open>error\<close> (on the next tick, hence while
  its handle is still the stored one); a running child emits \<^verbatim>\<open>exit\<close>, on its own
  or after a signal, at any later time; a pending timer fires. The environment answers as
  it likes.
\<close>

inductive reachable :: "world \<times> capture \<Rightarrow> bool" where
  r_init: "procs w = [] \<Longrightarrow> stopWaiters w = [] \<Longrightarrow> timers w = 0 \<Longrightarrow> reachable (w, newCapture)"
| r_start: "reachable s \<Longrightarrow> reachable (snd (startCapture mk sp r s))"
| r_stop: "reachable s \<Longrightarrow> reachable (stopCaptureCall s)"
| r_clear: "reachable (w, c) \<Longrightarrow> reachable (clearFrames w, c)"
| r_error: "reachable (w, c) \<Longrightarrow> captureProcess c = Some p \<Longrightarrow> p < length (procs w) \<Longrightarrow>
      snd (procs w ! p) = SpawnFailed \<Longrightarrow> reachable (onError (w, c))"
| r_exit: "reachable (w, c) \<Longrightarrow> running w p \<Longrightarrow> reachable (exitEvent p code (w, c))"
| r_timer: "reachable (w, c) \<Longrightarrow> timers w > 0 \<Longrightarrow> reachable (timerEvent (w, c))"


section \<open>Example states\<close>

definition emptyWorld :: world where
  "emptyWorld =
     \<lparr>files = None, locked = [], argLimit = 125000, procs = [], signals = [],
      stopWaiters = [], timers = 0, videos = [], notifications = [], console = []\<rparr>"

definition threeFrames :: world where
  "threeFrames =
     emptyWorld\<lparr>files := Some [''img_00001.jpg'', ''img_00002.jpg'', ''notes.txt'', ''img_00003.jpg'']\<rparr>"


text \<open>The three frames again, with an unlink of the second one refused.\<close>

definition lockedFrame :: world where
  "lockedFrame = threeFrames\<lparr>locked := [''img_00002.jpg'']\<rparr>"

text \<open>A directory with three frames and an engine that takes two arguments a call.\<close>

definition smallEngine :: world where
  "smallEngine = threeFrames\<lparr>argLimit := 2\<rparr>"

text \<open>A frame whose number, \<open>2 ^ 53 + 1\<close>, is not a double.\<close>

definition hugeFrame :: world where
  "hugeFrame = emptyWorld\<lparr>files := Some [''img_9007199254740993.jpg'']\<rparr>"

definition capturing :: "world \<times> capture" where
  "capturing = snd (startCapture True Spawned True (threeFrames, newCapture))"

definition exampleConfig :: config where
  "exampleConfig = \<lparr>watchdogTimeout = 60, outputDirectory = ''/out''\<rparr>"

text \<open>
  A tick on which everything works: the printer prints job 7, the job's file is
  \<^verbatim>\<open>benchy.gcode\<close>, ffmpeg starts, ends 120 ms after SIGTERM, and encodes.
\<close>

definition printingEnv :: env where
  "printingEnv =
     \<lparr>getStatus = Some \<lparr>printer_state = PRINTING, job = Some \<lparr>job_id = Some 7\<rparr>\<rparr>,
      getJob = Some (Some ''benchy.gcode''), tempDirOk = True, spawnCapture = Spawned,
      captureExit = Some (120, Some 255), outputDirOk = True, encoder = EncoderExit (Some 0),
      notifyExit = NotifyExit (Some 0), nowArm = 1000, nowCheck = 1001,
      isoString = ''2024-01-02T03:04:05.678Z'', cwd = ''/app''\<rparr>"

text \<open>The monitor after its first poll, which found the printer printing and three frames.\<close>

definition resumed :: "world \<times> monitor" where
  "resumed = checkStatus printingEnv exampleConfig (threeFrames, newMonitor)"

text \<open>A monitor that has polled before and saw the printer idle.\<close>

definition idleMonitor :: monitor where
  "idleMonitor = newMonitor\<lparr>isFirstCheck := False, lastPrinterState := Some IDLE\<rparr>"

text \<open>
  A capture is started; \<open>stopCapture\<close> is called, the child does not exit within
  5000 ms and the timer sends SIGKILL; a second capture is started; the \<^verbatim>\<open>exit\<close>
  event of the first child arrives; a third capture is started.
\<close>

definition afterForcedStop :: "world \<times> capture" where
  "afterForcedStop = timerEvent (stopCaptureCall capturing)"

definition secondCapture :: "world \<times> capture" where
  "secondCapture = snd (startCapture True Spawned True afterForcedStop)"

definition afterLateExit :: "world \<times> capture" where
  "afterLateExit = exitEvent 0 None secondCapture"

definition thirdCapture :: "world \<times> capture" where
  "thirdCapture = snd (startCapture True Spawned True afterLateExit)"

text \<open>
  A capture is started; \<open>stopCapture\<close> is called and the child exits at once, with code
  255; within the next 5000 ms a second capture is started; then the timer of that
  \<open>stopCapture\<close> fires.
\<close>

definition afterGracefulStop :: "world \<times> capture" where
  "afterGracefulStop = exitEvent 0 (Some 255) (stopCaptureCall capturing)"

definition restarted :: "world \<times> capture" where
  "restarted = snd (startCapture True Spawned True afterGracefulStop)"

definition afterStaleTimer :: "world \<times> capture" where
  "afterStaleTimer = timerEvent restarted"

section \<open>Facts about the world and the frame files\<close>

lemma triple: "x = (fst x, fst (snd x), snd (snd x))"
  by simp

lemma say_fields [simp]:
  "files (say e w) = files w" "procs (say e w) = procs w" "signals (say e w) = signals w"
  "videos (say e w) = videos w" "notifications (say e w) = notifications w"
  "console (say e w) = console w @ [e]"
  "locked (say e w) = locked w" "argLimit (say e w) = argLimit w"
  "stopWaiters (say e w) = stopWaiters w" "timers (say e w) = timers w"
  by (simp_all add: say_def)

lemma kill_fields [simp]:
  "files (kill p sg ms w) = files w" "procs (kill p sg ms w) = procs w"
  "signals (kill p sg ms w) = signals w @ [(p, sg, ms)]"
  "videos (kill p sg ms w) = videos w" "notifications (kill p sg ms w) = notifications w"
  "console (kill p sg ms w) = console w"
  "locked (kill p sg ms w) = locked w" "argLimit (kill p sg ms w) = argLimit w"
  "stopWaiters (kill p sg ms w) = stopWaiters w" "timers (kill p sg ms w) = timers w"
  by (simp_all add: kill_def)

lemma setStatus_fields [simp]:
  "files (setStatus p st w) = files w" "signals (setStatus p st w) = signals w"
  "videos (setStatus p st w) = videos w" "notifications (setStatus p st w) = notifications w"
  "console (setStatus p st w) = console w"
  "length (procs (setStatus p st w)) = length (procs w)"
  "map fst (procs (setStatus p st w)) = map fst (procs w)"
  "locked (setStatus p st w) = locked w" "argLimit (setStatus p st w) = argLimit w"
  "stopWaiters (setStatus p st w) = stopWaiters w" "timers (setStatus p st w) = timers w"
  by (simp_all add: setStatus_def map_update list_update_same_conv)

lemma clearFrames_fields [simp]:
  "procs (clearFrames w) = procs w" "signals (clearFrames w) = signals w"
  "videos (clearFrames w) = videos w" "notifications (clearFrames w) = notifications w"
  "locked (clearFrames w) = locked w" "argLimit (clearFrames w) = argLimit w"
  "stopWaiters (clearFrames w) = stopWaiters w" "timers (clearFrames w) = timers w"
  by (simp_all add: clearFrames_def split: option.splits prod.splits)

lemma frameFiles_say [simp]: "frameFiles (say e w) = frameFiles w"
  by (simp add: frameFiles_def)

lemma frameFiles_update [simp]:
  "frameFiles (w\<lparr>procs := ps\<rparr>) = frameFiles w"
  "frameFiles (w\<lparr>signals := sg\<rparr>) = frameFiles w"
  "frameFiles (w\<lparr>videos := vs\<rparr>) = frameFiles w"
  "frameFiles (w\<lparr>notifications := ns\<rparr>) = frameFiles w"
  "frameFiles (w\<lparr>console := cs\<rparr>) = frameFiles w"
  "frameFiles (w\<lparr>stopWaiters := sw\<rparr>) = frameFiles w"
  "frameFiles (w\<lparr>timers := n\<rparr>) = frameFiles w"
  by (simp_all add: frameFiles_def)

text \<open>
  What the loop of \<open>clearFrames\<close> leaves: the frame files from the first one whose unlink
  throws on, and every entry that is not a frame file before it.
\<close>

lemma unlinkFrames_frames:
  "filter isFrameFile (fst (unlinkFrames lk fs)) =
     dropWhile (\<lambda>f. f \<notin> set lk) (filter isFrameFile fs)"
  by (induction fs) (auto split: prod.splits)


lemma frameFiles_clearFrames:
  "frameFiles (clearFrames w) = dropWhile (\<lambda>f. f \<notin> set (locked w)) (frameFiles w)"
proof (cases "files w")
  case None
  then show ?thesis by (simp add: clearFrames_def frameFiles_def)
next
  case (Some fs)
  obtain left n where u: "unlinkFrames (locked w) fs = (left, n)" by (metis surj_pair)
  from unlinkFrames_frames [of "locked w" fs] u
  have "filter isFrameFile left = dropWhile (\<lambda>f. f \<notin> set (locked w)) (filter isFrameFile fs)"
    by simp
  with Some u show ?thesis
    by (cases n) (simp_all add: clearFrames_def frameFiles_def)
qed

lemma frameFiles_clearFrames_free:
  "\<forall>f \<in> set (frameFiles w). f \<notin> set (locked w) \<Longrightarrow> frameFiles (clearFrames w) = []"
  by (simp add: frameFiles_clearFrames dropWhile_eq_Nil_conv)


lemma dropWhile_twice: "dropWhile P (dropWhile P xs) = dropWhile P xs"
  by (induction xs) auto

lemma count_frameFiles: "getCapturedFrameCount w = length (frameFiles w)"
  by (simp add: getCapturedFrameCount_def frameFiles_def split: option.splits)

lemma count_say [simp]: "getCapturedFrameCount (say e w) = getCapturedFrameCount w"
  by (simp add: getCapturedFrameCount_def)

subsection \<open>Numbers\<close>

lemma bitLength_le: "bitLength n \<le> k \<longleftrightarrow> n < 2 ^ k"
proof (induction k arbitrary: n)
  case 0
  show ?case by (subst bitLength.simps) simp
next
  case (Suc k)
  have "bitLength n \<le> Suc k \<longleftrightarrow> n = 0 \<or> bitLength (n div 2) \<le> k"
    by (subst bitLength.simps) simp
  also have "\<dots> \<longleftrightarrow> n = 0 \<or> n div 2 < 2 ^ k" by (simp only: Suc.IH)
  also have "\<dots> \<longleftrightarrow> n < 2 ^ Suc k" by auto
  finally show ?case .
qed

text \<open>Below \<open>2 ^ 53\<close> every whole number is a double, and so is \<open>2 ^ 53\<close>.\<close>

lemma roundToDouble_small: "n < 9007199254740992 \<Longrightarrow> roundToDouble n = enat n"
  using bitLength_le [of n 53] by (simp add: roundToDouble_def)

lemma roundToDouble_2_53: "roundToDouble 9007199254740992 = enat 9007199254740992"
  by (simp add: roundToDouble_def bitLength.simps Let_def)

lemma plusOne_small: "x < 9007199254740992 \<Longrightarrow> plusOne x = x + 1"
proof (cases x)
  case (enat n)
  assume "x < 9007199254740992"
  with enat have n: "n < 9007199254740992" by (simp add: numeral_eq_enat)
  show ?thesis
  proof (cases "n + 1 = 9007199254740992")
    case True
    with enat roundToDouble_2_53 show ?thesis
      by (simp add: plusOne_def one_enat_def)
  next
    case False
    with n have "n + 1 < 9007199254740992" by simp
    from roundToDouble_small [OF this] enat show ?thesis
      by (simp add: plusOne_def one_enat_def)
  qed
next
  case infinity
  then show ?thesis by (simp add: plusOne_def)
qed

lemma plusOne_0 [simp]: "plusOne 0 = 1"
  using plusOne_small [of 0] by simp



lemma mkdirSync_fields:
  "mkdirSync ok w = Some w1 \<Longrightarrow>
     procs w1 = procs w \<and> frameFiles w1 = frameFiles w \<and> signals w1 = signals w \<and>
     getCapturedFrameCount w1 = getCapturedFrameCount w \<and>
     getHighestFrameNumber w1 = getHighestFrameNumber w \<and>
     locked w1 = locked w \<and> argLimit w1 = argLimit w \<and>
     stopWaiters w1 = stopWaiters w \<and> timers w1 = timers w \<and>
     (files w \<noteq> None \<longrightarrow> files w1 = files w)"
  by (auto simp: mkdirSync_def frameFiles_def getCapturedFrameCount_def
      getHighestFrameNumber_def split: if_splits option.splits)

lemma mkdirSync_Some:
  assumes "mkdirSync ok w = Some w1"
  shows "procs w1 = procs w \<and> frameFiles w1 = frameFiles w \<and> signals w1 = signals w \<and>
     getCapturedFrameCount w1 = getCapturedFrameCount w \<and>
     getHighestFrameNumber w1 = getHighestFrameNumber w \<and>
     locked w1 = locked w \<and> argLimit w1 = argLimit w \<and>
     stopWaiters w1 = stopWaiters w \<and> timers w1 = timers w \<and>
     frameFiles (clearFrames w1) = frameFiles (clearFrames w) \<and>
     (files w \<noteq> None \<longrightarrow> files w1 = files w)"
proof -
  note f = mkdirSync_fields [OF assms]
  then have "frameFiles (clearFrames w1) = frameFiles (clearFrames w)"
    by (simp only: frameFiles_clearFrames)
  with f show ?thesis by simp
qed

lemma running_say [simp]: "running (say e w) p = running w p"
  by (simp add: running_def)

lemma running_kill [simp]: "running (kill q sg ms w) p = running w p"
  by (simp add: running_def)

lemma running_clearFrames [simp]: "running (clearFrames w) p = running w p"
  by (simp add: running_def)

lemma running_setStatus_Exited [simp]:
  "running (setStatus q Exited w) p \<longleftrightarrow> p \<noteq> q \<and> running w p"
  by (auto simp: running_def setStatus_def nth_list_update)

lemma running_spawn [simp]:
  "running (w\<lparr>procs := procs w @ [(n, st)]\<rparr>) p \<longleftrightarrow>
     running w p \<or> (p = length (procs w) \<and> st = Running)"
  by (auto simp: running_def nth_append)

lemma running_mkdirSync: "mkdirSync ok w = Some w1 \<Longrightarrow> running w1 p = running w p"
  by (auto simp: mkdirSync_def running_def split: if_splits option.splits)

text \<open>
  \<open>startCapture\<close> past its guard and the directory: the frames are prepared, giving a
  world with the same children, and then the spawn decides.
\<close>

lemma startCapture_unfold:
  assumes "\<not> isCapturing c" and "mkdirSync mk w = Some w1"
  obtains w2 n where
    "procs w2 = procs w" and "\<And>p. running w2 p = running w p"
    and "sp = SpawnThrows \<Longrightarrow> startCapture mk sp r (w, c) = (Rejected SpawnException, w2, c)"
    and "sp \<noteq> SpawnThrows \<Longrightarrow>
           startCapture mk sp r (w, c) =
             (Resolved,
              w2\<lparr>procs := procs w2 @ [(n, if sp = Spawned then Running else SpawnFailed)]\<rparr>,
              c\<lparr>captureProcess := Some (length (procs w2)), isCapturing := True\<rparr>)"
proof -
  define n where "n = (if r \<and> getCapturedFrameCount w1 > 0
        then plusOne (getHighestFrameNumber w1) else 1)"
  define w2 where "w2 = (if r \<and> getCapturedFrameCount w1 > 0
        then say (LogResuming (getCapturedFrameCount w1) n) w1
        else clearTempDirectory w1)"
  have p: "procs w2 = procs w"
    using mkdirSync_Some [OF assms(2)] by (simp add: w2_def clearTempDirectory_def)
  have q: "\<And>p. running w2 p = running w p"
    using running_mkdirSync [OF assms(2)] by (simp add: w2_def clearTempDirectory_def)
  have a: "sp = SpawnThrows \<Longrightarrow> startCapture mk sp r (w, c) = (Rejected SpawnException, w2, c)"
    using assms by (simp add: Let_def w2_def n_def)
  have b: "sp \<noteq> SpawnThrows \<Longrightarrow>
           startCapture mk sp r (w, c) =
             (Resolved,
              w2\<lparr>procs := procs w2 @ [(n, if sp = Spawned then Running else SpawnFailed)]\<rparr>,
              c\<lparr>captureProcess := Some (length (procs w2)), isCapturing := True\<rparr>)"
    using assms by (cases sp) (simp_all add: Let_def w2_def n_def)
  from p q a b show thesis by (rule that)
qed

subsection \<open>The example states\<close>

lemma emptyWorld_fields:
  "files emptyWorld = None" "procs emptyWorld = []" "signals emptyWorld = []"
  "videos emptyWorld = []" "notifications emptyWorld = []" "console emptyWorld = []"
  "locked emptyWorld = []" "argLimit emptyWorld = 125000" "stopWaiters emptyWorld = []"
  "timers emptyWorld = 0"
  by (simp_all add: emptyWorld_def)

lemma threeFrames_fields:
  "files threeFrames = Some [''img_00001.jpg'', ''img_00002.jpg'', ''notes.txt'', ''img_00003.jpg'']"
  "procs threeFrames = []" "signals threeFrames = []" "console threeFrames = []"
  "videos threeFrames = []" "notifications threeFrames = []"
  "locked threeFrames = []" "argLimit threeFrames = 125000" "stopWaiters threeFrames = []"
  "timers threeFrames = 0"
  by (simp_all add: threeFrames_def emptyWorld_def)

lemma threeFrames_frames:
  "frameFiles threeFrames = [''img_00001.jpg'', ''img_00002.jpg'', ''img_00003.jpg'']"
  by (simp add: threeFrames_fields frameFiles_def isFrameFile_def startsWith_def endsWith_def)

lemma threeFrames_count: "getCapturedFrameCount threeFrames = 3"
  by (simp add: count_frameFiles threeFrames_frames)

lemma frameNumber_examples:
  "frameNumber ''img_00001.jpg'' = 1" "frameNumber ''img_00002.jpg'' = 2"
  "frameNumber ''img_00003.jpg'' = 3"
  by code_simp+

lemma threeFrames_highest: "getHighestFrameNumber threeFrames = 3"
  by (simp add: getHighestFrameNumber_def threeFrames_fields isFrameFile_def startsWith_def
      endsWith_def frameNumber_examples)

lemma threeFrames_mkdir: "mkdirSync True threeFrames = Some threeFrames"
  by (simp add: mkdirSync_def threeFrames_fields)


lemma capturing_eq:
  "capturing =
     (threeFrames\<lparr>procs := [(4, Running)], console := [LogResuming 3 4]\<rparr>,
      \<lparr>captureProcess = Some 0, isCapturing = True\<rparr>)"
  by (simp add: capturing_def newCapture_def threeFrames_mkdir Let_def threeFrames_count
        threeFrames_highest plusOne_small say_def threeFrames_fields)




lemma reachable_capturing: "reachable capturing"
  unfolding capturing_def
  by (rule r_start, rule r_init) (simp_all add: threeFrames_fields)

section \<open>The capture manager\<close>

subsection \<open>The invariant of the reachable states\<close>







subsection \<open>C1: what \<open>isCapturing\<close> says about the handle\<close>




text \<open>
  The handlers act on the manager and not on the child they were registered on, and the
  timer of \<open>stopCapture\<close> is never cancelled. So the number of running capture
  subprocesses is not bounded. A capture is started on three frames; \<open>stopCapture\<close> is
  called, child 0 does not exit within 5000 ms, the timer sends SIGKILL and clears the
  handle; a second capture is started (child 1); now the \<^verbatim>\<open>exit\<close> event of child 0
  arrives, and its two handlers reset \<open>isCapturing\<close> and clear the handle of child 1; a
  third capture is started (child 2). Children 1 and 2 run at the same time, and the
  manager stores the handle of child 2 only.
\<close>

lemma afterForcedStop_eq:
  "afterForcedStop =
     (threeFrames\<lparr>procs := [(4, Running)], console := [LogResuming 3 4],
        signals := [(0, SIGTERM, 0), (0, SIGKILL, 5000)], stopWaiters := [0]\<rparr>,
      \<lparr>captureProcess = None, isCapturing = False\<rparr>)"
  by (simp add: afterForcedStop_def capturing_eq kill_def threeFrames_fields)

lemma secondCapture_eq:
  "secondCapture =
     (threeFrames\<lparr>procs := [(4, Running), (4, Running)],
        console := [LogResuming 3 4, LogResuming 3 4],
        signals := [(0, SIGTERM, 0), (0, SIGKILL, 5000)], stopWaiters := [0]\<rparr>,
      \<lparr>captureProcess = Some 1, isCapturing = True\<rparr>)"
  by (simp add: secondCapture_def afterForcedStop_eq mkdirSync_def Let_def threeFrames_fields
      getCapturedFrameCount_def getHighestFrameNumber_def isFrameFile_def startsWith_def
      endsWith_def frameNumber_examples plusOne_small say_def)

lemma afterLateExit_eq:
  "afterLateExit =
     (threeFrames\<lparr>procs := [(4, Exited), (4, Running)],
        console := [LogResuming 3 4, LogResuming 3 4],
        signals := [(0, SIGTERM, 0), (0, SIGKILL, 5000)], stopWaiters := []\<rparr>,
      \<lparr>captureProcess = None, isCapturing = False\<rparr>)"
  by (simp add: afterLateExit_def secondCapture_eq setStatus_def Let_def)

lemma thirdCapture_eq:
  "thirdCapture =
     (threeFrames\<lparr>procs := [(4, Exited), (4, Running), (4, Running)],
        console := [LogResuming 3 4, LogResuming 3 4, LogResuming 3 4],
        signals := [(0, SIGTERM, 0), (0, SIGKILL, 5000)], stopWaiters := []\<rparr>,
      \<lparr>captureProcess = Some 2, isCapturing = True\<rparr>)"
  by (simp add: thirdCapture_def afterLateExit_eq mkdirSync_def Let_def threeFrames_fields
      getCapturedFrameCount_def getHighestFrameNumber_def isFrameFile_def startsWith_def
      endsWith_def frameNumber_examples plusOne_small say_def)

lemma concurrent_captures:
  "reachable thirdCapture \<and> running (fst thirdCapture) 1 \<and> running (fst thirdCapture) 2 \<and>
   captureProcess (snd thirdCapture) = Some 2"
proof -
  obtain w1 c1 where s1: "stopCaptureCall capturing = (w1, c1)" by (metis surj_pair)
  have "reachable (stopCaptureCall capturing)"
    by (rule r_stop) (rule reachable_capturing)
  with s1 have "reachable (w1, c1)" by simp
  moreover from s1 have "timers w1 > 0"
    by (auto simp: capturing_eq threeFrames_fields)
  ultimately have "reachable (timerEvent (w1, c1))" by (rule r_timer)
  with s1 have "reachable afterForcedStop" by (simp add: afterForcedStop_def)
  then have two: "reachable secondCapture"
    unfolding secondCapture_def by (rule r_start)
  obtain w2 c2 where s2: "secondCapture = (w2, c2)" by (metis surj_pair)
  with two have "reachable (w2, c2)" by simp
  moreover from s2 have "running w2 0" by (auto simp: secondCapture_eq running_def)
  ultimately have "reachable (exitEvent 0 None (w2, c2))" by (rule r_exit)
  with s2 have "reachable afterLateExit" by (simp add: afterLateExit_def)
  then have "reachable thirdCapture"
    unfolding thirdCapture_def by (rule r_start)
  then show ?thesis by (simp add: thirdCapture_eq running_def)
qed

text \<open>
  The timer alone does as much. A capture is started; \<open>stopCapture\<close> is called and
  child 0 exits at once; a second capture is started (child 1) before the 5000 ms are
  over; the timer of the first \<open>stopCapture\<close> fires, sends SIGKILL to child 1 and
  clears its handle, although \<open>stopCapture\<close> was not called for it.
\<close>

lemma restarted_eq:
  "restarted =
     (threeFrames\<lparr>procs := [(4, Exited), (4, Running)],
        console := [LogResuming 3 4, LogCaptureExit 255, LogResuming 3 4],
        signals := [(0, SIGTERM, 0)], timers := 1\<rparr>,
      \<lparr>captureProcess = Some 1, isCapturing = True\<rparr>)"
  by code_simp

lemma afterStaleTimer_eq:
  "afterStaleTimer =
     (threeFrames\<lparr>procs := [(4, Exited), (4, Running)],
        console := [LogResuming 3 4, LogCaptureExit 255, LogResuming 3 4],
        signals := [(0, SIGTERM, 0), (1, SIGKILL, 5000)], timers := 0\<rparr>,
      \<lparr>captureProcess = None, isCapturing = False\<rparr>)"
  by code_simp

lemma stale_timer_kills_next_capture:
  "reachable afterStaleTimer \<and> running (fst afterStaleTimer) 1 \<and>
   signals (fst afterStaleTimer) = [(0, SIGTERM, 0), (1, SIGKILL, 5000)] \<and>
   \<not> isCapturing (snd afterStaleTimer) \<and> captureProcess (snd afterStaleTimer) = None"
proof -
  obtain w1 c1 where s1: "stopCaptureCall capturing = (w1, c1)" by (metis surj_pair)
  have "reachable (stopCaptureCall capturing)"
    by (rule r_stop) (rule reachable_capturing)
  with s1 have "reachable (w1, c1)" by simp
  moreover from s1 have "running w1 0"
    by (auto simp: capturing_eq running_def)
  ultimately have "reachable (exitEvent 0 (Some 255) (w1, c1))" by (rule r_exit)
  with s1 have "reachable afterGracefulStop" by (simp add: afterGracefulStop_def)
  then have two: "reachable restarted"
    unfolding restarted_def by (rule r_start)
  obtain w2 c2 where s2: "restarted = (w2, c2)" by (metis surj_pair)
  with two have "reachable (w2, c2)" by simp
  moreover from s2 have "timers w2 > 0" by (auto simp: restarted_eq)
  ultimately have "reachable (timerEvent (w2, c2))" by (rule r_timer)
  with s2 have "reachable afterStaleTimer" by (simp add: afterStaleTimer_def)
  then show ?thesis by (simp add: afterStaleTimer_eq running_def)
qed

subsection \<open>C2: resume or fresh start\<close>




text \<open>
  Where the start number of a resumed capture is not above the existing frames. With
  more frame files than one call takes arguments (here three, for an engine that takes
  two), \<^verbatim>\<open>Math.max(...frameNumbers)\<close> throws, \<open>getHighestFrameNumber\<close> returns 0 and
  ffmpeg is launched at frame 1 over frames 1 to 3. With a frame numbered \<open>2 ^ 53 + 1\<close>,
  which is read as \<open>2 ^ 53\<close>, ffmpeg is launched at \<open>2 ^ 53\<close>.
\<close>

lemma resume_above_argLimit:
  "getCapturedFrameCount w > argLimit w \<Longrightarrow> getHighestFrameNumber w = 0"
  by (auto simp: getCapturedFrameCount_def getHighestFrameNumber_def Let_def
      split: option.splits)

lemma resume_smallEngine:
  "fst (startCapture True Spawned True (smallEngine, newCapture)) = Resolved \<and>
   files (fst (snd (startCapture True Spawned True (smallEngine, newCapture)))) = files threeFrames \<and>
   map fst (procs (fst (snd (startCapture True Spawned True (smallEngine, newCapture))))) = [1]"
proof -
  have c: "getCapturedFrameCount smallEngine = 3" "argLimit smallEngine = 2"
    "procs smallEngine = []" "files smallEngine = files threeFrames"
    by (simp_all add: smallEngine_def getCapturedFrameCount_def threeFrames_fields
        isFrameFile_def startsWith_def endsWith_def)
  then have h: "getHighestFrameNumber smallEngine = 0"
    by (intro resume_above_argLimit) simp
  have m: "mkdirSync True smallEngine = Some smallEngine"
    by (simp add: mkdirSync_def c threeFrames_fields)
  show ?thesis
    by (simp add: newCapture_def m c h Let_def)
qed

lemma hugeFrame_highest:
  "getHighestFrameNumber hugeFrame = 9007199254740992"
  "plusOne (getHighestFrameNumber hugeFrame) = 9007199254740992"
  by (simp_all add: getHighestFrameNumber_def hugeFrame_def emptyWorld_def isFrameFile_def
      startsWith_def endsWith_def frameNumber_def matchFrameAt_def isDigit_def parseInt_def
      decimalValue_def digitVal_def roundToDouble_def bitLength.simps Let_def plusOne_def
      numeral_eq_enat)

subsection \<open>C6: spawn failures\<close>

text \<open>
  C6, as the code has it. For a call of \<open>startCapture\<close> on a manager that is not
  capturing: \<open>isCapturing\<close> is set exactly when the directory could be made and
  \<^verbatim>\<open>spawn\<close> returned, and exactly then the call succeeds; a \<^verbatim>\<open>spawn\<close> that throws
  makes the call fail and leaves \<open>isCapturing\<close> false; a \<^verbatim>\<open>spawn\<close> that returns a
  handle whose child cannot be started makes the call succeed with \<open>isCapturing\<close> true
  and a handle that is not live, and the child's \<^verbatim>\<open>error\<close> event then resets
  \<open>isCapturing\<close> and keeps the handle.
\<close>

theorem startCapture_spawn_failure:
  assumes "startCapture mk sp r (w, c) = (out, w', c')" and "\<not> isCapturing c"
  shows "(isCapturing c' \<longleftrightarrow> mk \<and> sp \<noteq> SpawnThrows) \<and>
         (out = Resolved \<longleftrightarrow> mk \<and> sp \<noteq> SpawnThrows) \<and>
         (mk \<and> sp = SpawnThrows \<longrightarrow> out = Rejected SpawnException) \<and>
         (mk \<and> sp = SpawnErrorEvent \<longrightarrow>
            captureProcess c' = Some (length (procs w)) \<and>
            \<not> running w' (length (procs w)) \<and>
            \<not> isCapturing (snd (onError (w', c'))) \<and>
            captureProcess (snd (onError (w', c'))) = captureProcess c')"
proof (cases "mkdirSync mk w")
  case None
  then have "\<not> mk" by (simp add: mkdirSync_def split: if_splits)
  with None assms show ?thesis by auto
next
  case (Some w1)
  then have mk: mk by (simp add: mkdirSync_def split: if_splits)
  from startCapture_unfold [OF assms(2) Some, of sp r] obtain w2 n where
    p: "procs w2 = procs w"
    and a: "sp = SpawnThrows \<Longrightarrow> startCapture mk sp r (w, c) = (Rejected SpawnException, w2, c)"
    and b: "sp \<noteq> SpawnThrows \<Longrightarrow>
           startCapture mk sp r (w, c) =
             (Resolved,
              w2\<lparr>procs := procs w2 @ [(n, if sp = Spawned then Running else SpawnFailed)]\<rparr>,
              c\<lparr>captureProcess := Some (length (procs w2)), isCapturing := True\<rparr>)"
    by blast
  show ?thesis
  proof (cases "sp = SpawnThrows")
    case True
    from a [OF True] assms have "out = Rejected SpawnException" "c' = c" by simp_all
    with True assms(2) mk show ?thesis by simp
  next
    case False
    from b [OF False] assms(1)
    have "out = Resolved"
      and "w' = w2\<lparr>procs := procs w2 @ [(n, if sp = Spawned then Running else SpawnFailed)]\<rparr>"
      and "c' = c\<lparr>captureProcess := Some (length (procs w2)), isCapturing := True\<rparr>"
      by simp_all
    with False mk p show ?thesis by (simp add: running_def)
  qed
qed

text \<open>
  On three frames: a throwing spawn is reported and leaves the manager idle; a spawn whose
  child cannot be started is not reported, and only the \<^verbatim>\<open>error\<close> event makes the
  manager idle again; a good spawn sets \<open>isCapturing\<close>.
\<close>

theorem startCapture_spawn_failure_witness:
  "fst (startCapture True SpawnThrows True (threeFrames, newCapture)) = Rejected SpawnException \<and>
   \<not> isCapturing (snd (snd (startCapture True SpawnThrows True (threeFrames, newCapture)))) \<and>
   fst (startCapture True SpawnErrorEvent True (threeFrames, newCapture)) = Resolved \<and>
   isCapturing (snd (snd (startCapture True SpawnErrorEvent True (threeFrames, newCapture)))) \<and>
   \<not> isCapturing (snd (onError (snd (startCapture True SpawnErrorEvent True (threeFrames, newCapture))))) \<and>
   captureProcess (snd (onError (snd (startCapture True SpawnErrorEvent True (threeFrames, newCapture))))) = Some 0 \<and>
   fst (startCapture True Spawned True (threeFrames, newCapture)) = Resolved \<and>
   isCapturing (snd (snd (startCapture True Spawned True (threeFrames, newCapture))))"
proof -
  have i: "\<not> isCapturing newCapture" by (simp add: newCapture_def)
  have p: "procs threeFrames = []" by (simp add: threeFrames_def emptyWorld_def)
  from startCapture_spawn_failure [OF triple i, where mk = True and sp = SpawnThrows
        and r = True and w = threeFrames]
    startCapture_spawn_failure [OF triple i, where mk = True and sp = SpawnErrorEvent
        and r = True and w = threeFrames]
    startCapture_spawn_failure [OF triple i, where mk = True and sp = Spawned
        and r = True and w = threeFrames]
    p
  show ?thesis by (simp del: startCapture.simps onError.simps)
qed

text \<open>
  C6 as stated fails: ffmpeg cannot be started, the failure arrives as the child's
  \<^verbatim>\<open>error\<close> event, and \<open>startCapture\<close> has resolved with \<open>isCapturing\<close> true (after
  clearing the three frames for the fresh start).
\<close>

theorem startCapture_async_spawn_failure_counterexample:
  "startCapture True SpawnErrorEvent False (threeFrames, newCapture) =
     (Resolved,
      threeFrames\<lparr>files := Some [''notes.txt''], console := [LogCleared 3],
                  procs := [(1, SpawnFailed)]\<rparr>,
      \<lparr>captureProcess = Some 0, isCapturing = True\<rparr>)"
  by (simp add: newCapture_def threeFrames_mkdir Let_def clearTempDirectory_def clearFrames_def
        say_def threeFrames_fields isFrameFile_def startsWith_def endsWith_def)

subsection \<open>C7: stopping\<close>



section \<open>The monitor\<close>

subsection \<open>Stopping, assembling, notifying\<close>

text \<open>From here on the operations of the capture manager are unfolded by name only.\<close>

declare startCapture.simps [simp del] stopCapture.simps [simp del]

lemma stopCapture_world:
  assumes "stopCapture ex (w, c) = (ms, w', c')"
  shows "files w' = files w" "videos w' = videos w" "notifications w' = notifications w"
    "map fst (procs w') = map fst (procs w)" "length (procs w') = length (procs w)"
    "isCapturing c' \<Longrightarrow> isCapturing c" "frameFiles w' = frameFiles w"
    "getCapturedFrameCount w' = getCapturedFrameCount w" "locked w' = locked w"
  using assms
  by (auto simp: stopCapture.simps Let_def frameFiles_def getCapturedFrameCount_def
      split: option.splits if_splits prod.splits)

lemma stopCapture_stops:
  assumes "stopCapture ex (w, c) = (ms, w', c')" and "captureProcess c \<noteq> None"
  shows "\<not> isCapturing c'"
  using assms
  by (auto simp: stopCapture.simps Let_def split: option.splits if_splits prod.splits)

lemma assembleVideo_world:
  assumes "assembleVideo ok enc path w = (out, w')"
  shows "files w' = files w" "procs w' = procs w" "signals w' = signals w"
    "notifications w' = notifications w" "frameFiles w' = frameFiles w"
    "out = Resolved \<longleftrightarrow> ok \<and> getCapturedFrameCount w > 0 \<and> enc = EncoderExit (Some 0)"
    "videos w' = (if out = Resolved then videos w @ [path] else videos w)"
    "locked w' = locked w"
  using assms
  by (auto simp: assembleVideo_def Let_def frameFiles_def split: if_splits encoder_result.splits)

lemma sendNotification_world [simp]:
  "files (sendNotification e path w) = files w"
  "procs (sendNotification e path w) = procs w"
  "signals (sendNotification e path w) = signals w"
  "videos (sendNotification e path w) = videos w"
  "frameFiles (sendNotification e path w) = frameFiles w"
  "notifications (sendNotification e path w) =
     (case notifyExit e of NotifyErrorEvent \<Rightarrow> notifications w
      | NotifyExit code \<Rightarrow> notifications w @ [path])"
  "locked (sendNotification e path w) = locked w"
  by (simp_all add: sendNotification_def Let_def frameFiles_def split: notify_result.splits)

lemma generateOutputPath_cong:
  "currentPrintFilename m = currentPrintFilename m' \<Longrightarrow>
     generateOutputPath e cfg m j = generateOutputPath e cfg m' j"
  by (simp add: generateOutputPath_def)

lemma handlePrintFinished_cases:
  obtains
    (idle) "\<not> isCapturing (timelapseCapture m)"
      "handlePrintFinished e cfg j (w, m) =
         (say LogNoActiveCapture (say LogWatchdogCleared (say (LogPrintFinished j) w)),
          m\<lparr>watchdogExpiry := None, currentPrintFilename := None\<rparr>)"
  | (failed) err ms w1 c1 where "isCapturing (timelapseCapture m)"
      "stopCapture (captureExit e)
         (say LogWatchdogCleared (say (LogPrintFinished j) w), timelapseCapture m) = (ms, w1, c1)"
      "assembleVideo (outputDirOk e) (encoder e) (generateOutputPath e cfg m j)
         (say LogCaptureStopped w1) = (Rejected err, say LogCaptureStopped w1)"
      "handlePrintFinished e cfg j (w, m) =
         (say (LogCompletionError err) (say LogCaptureStopped w1),
          m\<lparr>watchdogExpiry := None, timelapseCapture := c1, currentPrintFilename := None\<rparr>)"
  | (completed) ms w1 c1 w2 where "isCapturing (timelapseCapture m)"
      "stopCapture (captureExit e)
         (say LogWatchdogCleared (say (LogPrintFinished j) w), timelapseCapture m) = (ms, w1, c1)"
      "assembleVideo (outputDirOk e) (encoder e) (generateOutputPath e cfg m j)
         (say LogCaptureStopped w1) = (Resolved, w2)"
      "handlePrintFinished e cfg j (w, m) =
         (say (LogCompleted (generateOutputPath e cfg m j))
            (sendNotification e (generateOutputPath e cfg m j) (clearFrames w2)),
          m\<lparr>watchdogExpiry := None, timelapseCapture := c1, currentPrintFilename := None\<rparr>)"
proof (cases "isCapturing (timelapseCapture m)")
  case False
  then show ?thesis by (intro idle) (simp_all add: isCurrentlyCapturing_def Let_def)
next
  case True
  obtain ms w1 c1 where st: "stopCapture (captureExit e)
         (say LogWatchdogCleared (say (LogPrintFinished j) w), timelapseCapture m) = (ms, w1, c1)"
    by (metis prod_cases3)
  have path: "generateOutputPath e cfg (m\<lparr>watchdogExpiry := None, timelapseCapture := c1\<rparr>) j
      = generateOutputPath e cfg m j"
    by (rule generateOutputPath_cong) simp
  obtain out w2 where av: "assembleVideo (outputDirOk e) (encoder e) (generateOutputPath e cfg m j)
         (say LogCaptureStopped w1) = (out, w2)"
    by (metis surj_pair)
  show ?thesis
  proof (cases out)
    case Resolved
    with True st av path show ?thesis
      by (intro completed [of ms w1 c1 w2]) (simp_all add: isCurrentlyCapturing_def Let_def)
  next
    case (Rejected err)
    with av have "w2 = say LogCaptureStopped w1"
      by (auto simp: assembleVideo_def Let_def split: if_splits encoder_result.splits)
    with Rejected True st av path show ?thesis
      by (intro failed [of ms w1 c1 err]) (simp_all add: isCurrentlyCapturing_def Let_def)
  qed
qed

declare handlePrintFinished.simps [simp del]

text \<open>What \<open>handlePrintFinished\<close> leaves alone, and what it always does.\<close>

lemma handlePrintFinished_monitor:
  assumes "handlePrintFinished e cfg j (w, m) = (w', m')"
  shows "lastPrinterState m' = lastPrinterState m" "currentPrintId m' = currentPrintId m"
    "isFirstCheck m' = isFirstCheck m" "watchdogExpiry m' = None"
    "currentPrintFilename m' = None"
    "isCapturing (timelapseCapture m') \<Longrightarrow> isCapturing (timelapseCapture m)"
    "captureProcess (timelapseCapture m) \<noteq> None \<Longrightarrow> \<not> isCapturing (timelapseCapture m')"
    "length (procs w') = length (procs w)" "map fst (procs w') = map fst (procs w)"
    "locked w' = locked w"
proof -
  have "lastPrinterState m' = lastPrinterState m \<and> currentPrintId m' = currentPrintId m \<and>
    isFirstCheck m' = isFirstCheck m \<and> watchdogExpiry m' = None \<and>
    currentPrintFilename m' = None \<and>
    (isCapturing (timelapseCapture m') \<longrightarrow> isCapturing (timelapseCapture m)) \<and>
    (captureProcess (timelapseCapture m) \<noteq> None \<longrightarrow> \<not> isCapturing (timelapseCapture m')) \<and>
    length (procs w') = length (procs w) \<and> map fst (procs w') = map fst (procs w) \<and>
    locked w' = locked w"
  proof (cases rule: handlePrintFinished_cases [of m e cfg j w])
    case idle
    with assms show ?thesis by auto
  next
    case (failed err ms w1 c1)
    from stopCapture_world [OF failed(2)] stopCapture_stops [OF failed(2)] failed(4) assms
    show ?thesis by auto
  next
    case (completed ms w1 c1 w2)
    from stopCapture_world [OF completed(2)] stopCapture_stops [OF completed(2)]
      assembleVideo_world [OF completed(3)] completed(4) assms
    show ?thesis by auto
  qed
  then show "lastPrinterState m' = lastPrinterState m" "currentPrintId m' = currentPrintId m"
    "isFirstCheck m' = isFirstCheck m" "watchdogExpiry m' = None"
    "currentPrintFilename m' = None"
    "isCapturing (timelapseCapture m') \<Longrightarrow> isCapturing (timelapseCapture m)"
    "captureProcess (timelapseCapture m) \<noteq> None \<Longrightarrow> \<not> isCapturing (timelapseCapture m')"
    "length (procs w') = length (procs w)" "map fst (procs w') = map fst (procs w)"
    "locked w' = locked w"
    by simp_all
qed

text \<open>
  The frames through \<open>handlePrintFinished\<close>: \<open>clearFrames\<close> runs exactly when a
  capture was active and the assembly succeeded; then the video and the notification
  carry the output path.
\<close>

lemma handlePrintFinished_frames:
  assumes "handlePrintFinished e cfg j (w, m) = (w', m')"
  shows "if isCapturing (timelapseCapture m) \<and> outputDirOk e \<and> getCapturedFrameCount w > 0
            \<and> encoder e = EncoderExit (Some 0)
         then frameFiles w' = dropWhile (\<lambda>f. f \<notin> set (locked w)) (frameFiles w) \<and>
              videos w' = videos w @ [generateOutputPath e cfg m j] \<and>
              notifications w' =
                (case notifyExit e of
                   NotifyErrorEvent \<Rightarrow> notifications w
                 | NotifyExit code \<Rightarrow> notifications w @ [generateOutputPath e cfg m j])
         else files w' = files w \<and> videos w' = videos w \<and> notifications w' = notifications w"
proof (cases rule: handlePrintFinished_cases [of m e cfg j w])
  case idle
  with assms show ?thesis by auto
next
  case (failed err ms w1 c1)
  from stopCapture_world [OF failed(2)] assembleVideo_world [OF failed(3)] failed(4) assms
  show ?thesis by auto
next
  case (completed ms w1 c1 w2)
  from stopCapture_world [OF completed(2)] assembleVideo_world [OF completed(3)]
    completed(1,4) assms
  show ?thesis by (auto simp: frameFiles_clearFrames split: notify_result.splits)
qed

declare checkWatchdog.simps [simp del] checkStatus.simps [simp del]
  handlePrintStarted.simps [simp del]

lemma stopCapture_signals:
  assumes "stopCapture ex (w, c) = (ms, w', c')" and "isCapturing c"
    and "captureProcess c = Some p"
  shows "signals w' = signals w @ (p, SIGTERM, 0) #
           (if exitsInGrace ex = None then [(p, SIGKILL, 5000)] else [])"
  using assms
  by (auto simp: stopCapture.simps Let_def split: option.splits if_splits prod.splits)

lemma stopCapture_console:
  assumes "stopCapture ex (w, c) = (ms, w', c')"
  shows "set (console w) \<subseteq> set (console w')"
  using assms
  by (auto simp: stopCapture.simps Let_def split: option.splits if_splits prod.splits)

lemma assembleVideo_console:
  assumes "assembleVideo ok enc path w = (out, w')"
  shows "set (console w) \<subseteq> set (console w')"
  using assms
  by (auto simp: assembleVideo_def Let_def split: if_splits encoder_result.splits)

lemma clearFrames_console: "set (console w) \<subseteq> set (console (clearFrames w))"
  by (auto simp: clearFrames_def Let_def split: option.splits prod.splits)

lemma sendNotification_console: "set (console w) \<subseteq> set (console (sendNotification e path w))"
  by (auto simp: sendNotification_def Let_def split: notify_result.splits)

lemma handlePrintFinished_console:
  assumes "handlePrintFinished e cfg j (w, m) = (w', m')"
  shows "set (console w) \<subseteq> set (console w')" "LogPrintFinished j \<in> set (console w')"
proof -
  have "set (console w) \<subseteq> set (console w') \<and> LogPrintFinished j \<in> set (console w')"
  proof (cases rule: handlePrintFinished_cases [of m e cfg j w])
    case idle
    with assms show ?thesis by auto
  next
    case (failed err ms w1 c1)
    from stopCapture_console [OF failed(2)] failed(4) assms
    show ?thesis by auto
  next
    case (completed ms w1 c1 w2)
    from stopCapture_console [OF completed(2)] assembleVideo_console [OF completed(3)]
      clearFrames_console [of w2]
      sendNotification_console [of "clearFrames w2" e "generateOutputPath e cfg m j"]
      completed(4) assms
    show ?thesis by auto
  qed
  then show "set (console w) \<subseteq> set (console w')" "LogPrintFinished j \<in> set (console w')"
    by simp_all
qed

lemma handlePrintFinished_signals:
  assumes "handlePrintFinished e cfg j (w, m) = (w', m')"
    and "isCapturing (timelapseCapture m)" and "captureProcess (timelapseCapture m) = Some p"
  shows "signals w' = signals w @ (p, SIGTERM, 0) #
           (if exitsInGrace (captureExit e) = None then [(p, SIGKILL, 5000)] else [])"
proof (cases rule: handlePrintFinished_cases [of m e cfg j w])
  case idle
  with assms show ?thesis by simp
next
  case (failed err ms w1 c1)
  from stopCapture_signals [OF failed(2) assms(2,3)] failed(4) assms(1)
  show ?thesis by auto
next
  case (completed ms w1 c1 w2)
  from stopCapture_signals [OF completed(2) assms(2,3)] assembleVideo_world [OF completed(3)]
    completed(4) assms(1)
  show ?thesis by auto
qed

lemma checkWatchdog_monitor:
  assumes "checkWatchdog e cfg (w, m) = (w', m')"
  shows "lastPrinterState m' = lastPrinterState m" "currentPrintId m' = currentPrintId m"
    "isFirstCheck m' = isFirstCheck m"
    "isCapturing (timelapseCapture m') \<Longrightarrow> isCapturing (timelapseCapture m)"
    "length (procs w') = length (procs w)" "map fst (procs w') = map fst (procs w)"
    "set (console w) \<subseteq> set (console w')"
    "frameFiles w = [] \<Longrightarrow> frameFiles w' = []"
    "locked w' = locked w"
    "frameFiles w' = frameFiles w \<or>
     frameFiles w' = dropWhile (\<lambda>f. f \<notin> set (locked w)) (frameFiles w)"
proof -
  have "lastPrinterState m' = lastPrinterState m \<and> currentPrintId m' = currentPrintId m \<and>
    isFirstCheck m' = isFirstCheck m \<and>
    (isCapturing (timelapseCapture m') \<longrightarrow> isCapturing (timelapseCapture m)) \<and>
    length (procs w') = length (procs w) \<and> map fst (procs w') = map fst (procs w) \<and>
    set (console w) \<subseteq> set (console w') \<and> (frameFiles w = [] \<longrightarrow> frameFiles w' = []) \<and>
    locked w' = locked w \<and>
    (frameFiles w' = frameFiles w \<or>
     frameFiles w' = dropWhile (\<lambda>f. f \<notin> set (locked w)) (frameFiles w))"
  proof (cases "checkWatchdog e cfg (w, m) = (w, m)")
    case True
    with assms show ?thesis by simp
  next
    case False
    with assms have h: "handlePrintFinished e cfg (currentPrintId m) (say LogWatchdogTriggered w, m)
      = (w', m')"
      by (auto simp: checkWatchdog.simps split: if_splits)
    from handlePrintFinished_monitor [OF h] handlePrintFinished_console(1) [OF h]
      handlePrintFinished_frames [OF h]
    show ?thesis by (auto simp: frameFiles_def split: if_splits)
  qed
  then show "lastPrinterState m' = lastPrinterState m" "currentPrintId m' = currentPrintId m"
    "isFirstCheck m' = isFirstCheck m"
    "isCapturing (timelapseCapture m') \<Longrightarrow> isCapturing (timelapseCapture m)"
    "length (procs w') = length (procs w)" "map fst (procs w') = map fst (procs w)"
    "set (console w) \<subseteq> set (console w')"
    "frameFiles w = [] \<Longrightarrow> frameFiles w' = []"
    "locked w' = locked w"
    "frameFiles w' = frameFiles w \<or>
     frameFiles w' = dropWhile (\<lambda>f. f \<notin> set (locked w)) (frameFiles w)"
    by simp_all
qed

subsection \<open>The branches of a poll tick\<close>

lemma checkStatus_failed:
  "getStatus e = None \<Longrightarrow> checkStatus e cfg (w, m) = checkWatchdog e cfg (say LogApiError w, m)"
  by (simp add: checkStatus.simps)

lemma checkStatus_first_start:
  assumes "getStatus e = Some status" and "isFirstCheck m"
    and "printer_state status = PRINTING" and "jobIdOf status = Some j"
  shows "checkStatus e cfg (w, m) =
     (case handlePrintStarted e cfg j (canResume w)
             (say (if canResume w then LogStartupResume else LogStartupFresh)
                (say LogPrinterState w), m\<lparr>isFirstCheck := False\<rparr>) of
        (w1, m1) \<Rightarrow>
          checkWatchdog e cfg
            (w1, m1\<lparr>lastPrinterState := Some PRINTING, currentPrintId := Some j\<rparr>))"
  using assms by (simp add: checkStatus.simps Let_def canResume_def)

lemma checkStatus_first_other:
  assumes "getStatus e = Some status" and "isFirstCheck m"
    and "printer_state status \<noteq> PRINTING \<or> jobIdOf status = None"
  shows "checkStatus e cfg (w, m) =
     checkWatchdog e cfg
       (if canResume w then clearFrames (say LogStartupStale (say LogPrinterState w))
        else say LogPrinterState w,
        m\<lparr>isFirstCheck := False, lastPrinterState := Some (printer_state status),
          currentPrintId := jobIdOf status\<rparr>)"
  using assms by (auto simp: checkStatus.simps Let_def canResume_def)

lemma checkStatus_steady_nojob:
  assumes "getStatus e = Some status" and "\<not> isFirstCheck m" and "jobIdOf status = None"
  shows "checkStatus e cfg (w, m) =
     (case (if lastPrinterState m = Some PRINTING \<and> printer_state status \<noteq> PRINTING
            then handlePrintFinished e cfg None (say LogPrinterState w, m)
            else if isCapturing (timelapseCapture m) \<and> printer_state status = PRINTING
            then resetWatchdog e cfg (say LogPrinterState w, m)
            else (say LogPrinterState w, m)) of
        (w1, m1) \<Rightarrow>
          checkWatchdog e cfg
            (w1, m1\<lparr>lastPrinterState := Some (printer_state status), currentPrintId := None\<rparr>))"
  using assms by (simp add: checkStatus.simps Let_def isCurrentlyCapturing_def)

lemma jobIdOf_zero: "job status = Some j \<Longrightarrow> job_id j = Some 0 \<Longrightarrow> jobIdOf status = None"
  by (simp add: jobIdOf_def)

lemma count_0_frameFiles: "getCapturedFrameCount w = 0 \<longleftrightarrow> frameFiles w = []"
  by (simp add: count_frameFiles)

text \<open>A poll whose response has no usable job id launches nothing.\<close>

lemma checkStatus_nojob:
  assumes st: "getStatus e = Some status" and nj: "jobIdOf status = None"
    and cs: "checkStatus e cfg (w, m) = (w', m')"
  shows "currentPrintId m' = None" "length (procs w') = length (procs w)"
    "map fst (procs w') = map fst (procs w)"
    "isCapturing (timelapseCapture m') \<Longrightarrow> isCapturing (timelapseCapture m)"
    "isFirstCheck m \<Longrightarrow>
       frameFiles w' = dropWhile (\<lambda>f. f \<notin> set (locked w)) (frameFiles w)"
proof -
  have "currentPrintId m' = None \<and> length (procs w') = length (procs w) \<and>
    map fst (procs w') = map fst (procs w) \<and>
    (isCapturing (timelapseCapture m') \<longrightarrow> isCapturing (timelapseCapture m)) \<and>
    (isFirstCheck m \<longrightarrow>
       frameFiles w' = dropWhile (\<lambda>f. f \<notin> set (locked w)) (frameFiles w))"
  proof (cases "isFirstCheck m")
    case True
    define w1 where "w1 = (if canResume w then clearFrames (say LogStartupStale (say LogPrinterState w))
        else say LogPrinterState w)"
    define m1 where "m1 = m\<lparr>isFirstCheck := False, lastPrinterState := Some (printer_state status),
          currentPrintId := jobIdOf status\<rparr>"
    from checkStatus_first_other [OF st True, of cfg w] nj cs
    have cw: "checkWatchdog e cfg (w1, m1) = (w', m')" by (simp add: w1_def m1_def)
    have f: "frameFiles w1 = dropWhile (\<lambda>f. f \<notin> set (locked w)) (frameFiles w)"
      by (simp add: w1_def canResume_def count_0_frameFiles frameFiles_clearFrames)
    have p: "procs w1 = procs w" "locked w1 = locked w" by (simp_all add: w1_def)
    from checkWatchdog_monitor(10) [OF cw] f p
    have "frameFiles w' = dropWhile (\<lambda>f. f \<notin> set (locked w)) (frameFiles w)"
      by (auto simp: dropWhile_twice)
    with checkWatchdog_monitor(1-7) [OF cw] p nj True show ?thesis by (simp add: m1_def)
  next
    case False
    obtain w1 m1 where b: "(if lastPrinterState m = Some PRINTING \<and> printer_state status \<noteq> PRINTING
            then handlePrintFinished e cfg None (say LogPrinterState w, m)
            else if isCapturing (timelapseCapture m) \<and> printer_state status = PRINTING
            then resetWatchdog e cfg (say LogPrinterState w, m)
            else (say LogPrinterState w, m)) = (w1, m1)"
      by (metis surj_pair)
    with checkStatus_steady_nojob [OF st False nj, of cfg w] cs
    have cw: "checkWatchdog e cfg
        (w1, m1\<lparr>lastPrinterState := Some (printer_state status), currentPrintId := None\<rparr>)
        = (w', m')" by simp
    have "length (procs w1) = length (procs w) \<and> map fst (procs w1) = map fst (procs w) \<and>
        (isCapturing (timelapseCapture m1) \<longrightarrow> isCapturing (timelapseCapture m))"
    proof (cases "lastPrinterState m = Some PRINTING \<and> printer_state status \<noteq> PRINTING")
      case True
      with b have "handlePrintFinished e cfg None (say LogPrinterState w, m) = (w1, m1)" by simp
      from handlePrintFinished_monitor [OF this] show ?thesis by simp
    next
      case False
      with b show ?thesis by (auto split: if_splits)
    qed
    with checkWatchdog_monitor [OF cw] False show ?thesis by simp
  qed
  then show "currentPrintId m' = None" "length (procs w') = length (procs w)"
    "map fst (procs w') = map fst (procs w)"
    "isCapturing (timelapseCapture m') \<Longrightarrow> isCapturing (timelapseCapture m)"
    "isFirstCheck m \<Longrightarrow>
       frameFiles w' = dropWhile (\<lambda>f. f \<notin> set (locked w)) (frameFiles w)"
    by simp_all
qed

lemma generateOutputPath_update [simp]:
  "generateOutputPath e cfg (m\<lparr>lastPrinterState := x\<rparr>) j = generateOutputPath e cfg m j"
  "generateOutputPath e cfg (m\<lparr>watchdogExpiry := y\<rparr>) j = generateOutputPath e cfg m j"
  "generateOutputPath e cfg (m\<lparr>timelapseCapture := c\<rparr>) j = generateOutputPath e cfg m j"
  "generateOutputPath (e\<lparr>getStatus := s\<rparr>) cfg m j = generateOutputPath e cfg m j"
  by (simp_all add: generateOutputPath_def)

lemma sendNotification_env [simp]:
  "sendNotification (e\<lparr>getStatus := s\<rparr>) path w = sendNotification e path w"
  by (simp add: sendNotification_def)

lemma handlePrintFinished_idle:
  "\<not> isCapturing (timelapseCapture m) \<Longrightarrow>
     handlePrintFinished e cfg j (w, m) =
       (say LogNoActiveCapture (say LogWatchdogCleared (say (LogPrintFinished j) w)),
        m\<lparr>watchdogExpiry := None, currentPrintFilename := None\<rparr>)"
  by (simp add: handlePrintFinished.simps isCurrentlyCapturing_def)

lemma handlePrintFinished_eval:
  assumes "isCapturing (timelapseCapture m)"
    and "stopCapture (captureExit e)
         (say LogWatchdogCleared (say (LogPrintFinished j) w), timelapseCapture m) = (ms, w1, c1)"
    and "assembleVideo (outputDirOk e) (encoder e) (generateOutputPath e cfg m j)
         (say LogCaptureStopped w1) = (out, w2)"
  shows "handlePrintFinished e cfg j (w, m) =
     (case out of
        Rejected err \<Rightarrow> say (LogCompletionError err) w2
      | Resolved \<Rightarrow>
          say (LogCompleted (generateOutputPath e cfg m j))
            (sendNotification e (generateOutputPath e cfg m j) (clearFrames w2)),
      m\<lparr>watchdogExpiry := None, timelapseCapture := c1, currentPrintFilename := None\<rparr>)"
  using assms
  by (cases out) (simp_all add: handlePrintFinished.simps Let_def isCurrentlyCapturing_def)

lemma handlePrintFinished_env:
  "handlePrintFinished (e\<lparr>getStatus := s\<rparr>) cfg j (w, m) = handlePrintFinished e cfg j (w, m)"
proof (cases "isCapturing (timelapseCapture m)")
  case False
  then show ?thesis by (simp add: handlePrintFinished_idle)
next
  case True
  obtain ms w1 c1 where st: "stopCapture (captureExit e)
         (say LogWatchdogCleared (say (LogPrintFinished j) w), timelapseCapture m) = (ms, w1, c1)"
    by (metis prod_cases3)
  obtain out w2 where av: "assembleVideo (outputDirOk e) (encoder e) (generateOutputPath e cfg m j)
         (say LogCaptureStopped w1) = (out, w2)"
    by (metis surj_pair)
  from handlePrintFinished_eval [OF True st av]
    handlePrintFinished_eval [of m "e\<lparr>getStatus := s\<rparr>" j w ms w1 c1 cfg out w2] True st av
  show ?thesis by (cases out) simp_all
qed

lemma checkWatchdog_env: "checkWatchdog (e\<lparr>getStatus := x\<rparr>) cfg (w, m) = checkWatchdog e cfg (w, m)"
  by (simp add: checkWatchdog.simps handlePrintFinished_env)

lemma handlePrintFinished_last:
  "handlePrintFinished e cfg j (w, m\<lparr>lastPrinterState := x\<rparr>) =
     (case handlePrintFinished e cfg j (w, m) of (w', m') \<Rightarrow> (w', m'\<lparr>lastPrinterState := x\<rparr>))"
proof (cases "isCapturing (timelapseCapture m)")
  case False
  then show ?thesis by (cases m) (simp add: handlePrintFinished_idle)
next
  case True
  obtain ms w1 c1 where st: "stopCapture (captureExit e)
         (say LogWatchdogCleared (say (LogPrintFinished j) w), timelapseCapture m) = (ms, w1, c1)"
    by (metis prod_cases3)
  obtain out w2 where av: "assembleVideo (outputDirOk e) (encoder e) (generateOutputPath e cfg m j)
         (say LogCaptureStopped w1) = (out, w2)"
    by (metis surj_pair)
  have ord: "m\<lparr>lastPrinterState := x, watchdogExpiry := None, timelapseCapture := c1,
        currentPrintFilename := None\<rparr>
      = m\<lparr>watchdogExpiry := None, timelapseCapture := c1, currentPrintFilename := None,
          lastPrinterState := x\<rparr>"
    by (cases m) simp
  from handlePrintFinished_eval [OF True st av]
    handlePrintFinished_eval [of "m\<lparr>lastPrinterState := x\<rparr>" e j w ms w1 c1 cfg out w2] True st av
  show ?thesis by (cases out) (simp_all add: ord)
qed

lemma checkWatchdog_last:
  "checkWatchdog e cfg (w, m\<lparr>lastPrinterState := x\<rparr>) =
     (case checkWatchdog e cfg (w, m) of (w', m') \<Rightarrow> (w', m'\<lparr>lastPrinterState := x\<rparr>))"
  by (simp add: checkWatchdog.simps handlePrintFinished_last)

lemma highest_say [simp]: "getHighestFrameNumber (say e w) = getHighestFrameNumber w"
  by (simp add: getHighestFrameNumber_def Let_def split: option.splits)

lemma startCapture_started:
  assumes "\<not> isCapturing c" and mk and "sp \<noteq> SpawnThrows"
  obtains w' c' where "startCapture mk sp r (w, c) = (Resolved, w', c')"
    and "isCapturing c'"
    and "map fst (procs w') = map fst (procs w) @
           [if r \<and> getCapturedFrameCount w > 0 then plusOne (getHighestFrameNumber w) else 1]"
    and "if r \<and> getCapturedFrameCount w > 0 then files w' = files w
         else frameFiles w' = frameFiles (clearFrames w)"
proof -
  from \<open>mk\<close> obtain w1 where w1: "mkdirSync mk w = Some w1"
    by (simp add: mkdirSync_def)
  note m = mkdirSync_Some [OF w1]
  obtain out w' c' where st: "startCapture mk sp r (w, c) = (out, w', c')"
    by (metis prod_cases3)
  have f: "r \<and> getCapturedFrameCount w > 0 \<Longrightarrow> files w1 = files w"
    using m by (auto simp: getCapturedFrameCount_def split: option.splits)
  from st assms w1 m f have "out = Resolved" "isCapturing c'"
    "map fst (procs w') = map fst (procs w) @
           [if r \<and> getCapturedFrameCount w > 0 then plusOne (getHighestFrameNumber w) else 1]"
    "if r \<and> getCapturedFrameCount w > 0 then files w' = files w
     else frameFiles w' = frameFiles (clearFrames w)"
    by (cases sp; auto simp: startCapture.simps Let_def clearTempDirectory_def)+
  with st show thesis by (intro that [of w' c']) simp_all
qed

text \<open>A start that fails spawns nothing and leaves the manager as it was.\<close>

lemma startCapture_failed:
  assumes "\<not> isCapturing c" and "\<not> mk \<or> sp = SpawnThrows"
  obtains err w' where "startCapture mk sp r (w, c) = (Rejected err, w', c)"
    and "procs w' = procs w"
proof (cases "mkdirSync mk w")
  case None
  with assms(1) have "startCapture mk sp r (w, c) = (Rejected TempDirectoryFailed, w, c)"
    by (simp add: startCapture.simps)
  then show thesis by (intro that [of TempDirectoryFailed w]) simp_all
next
  case (Some w1)
  then have mk by (simp add: mkdirSync_def split: if_splits)
  with assms(2) have sp: "sp = SpawnThrows" by simp
  from startCapture_unfold [OF assms(1) Some, of sp r] obtain w2 where
    "procs w2 = procs w" "startCapture mk sp r (w, c) = (Rejected SpawnException, w2, c)"
    using sp by blast
  then show thesis by (intro that [of SpawnException w2]) simp_all
qed

lemma canResume_say [simp]: "canResume (say e w) = canResume w"
  by (simp add: canResume_def)

lemma handlePrintStarted_go:
  assumes "\<not> isCapturing (timelapseCapture m)" and "getJob e = Some dn"
    and "named = (case dn of None \<Rightarrow> False | Some n \<Rightarrow> n \<noteq> [])"
    and "w1 = say (if named then LogPrintFile (the dn) else LogNoFileInfo)
                (say (LogPrintStarted j) w)"
    and "startCapture (tempDirOk e) (spawnCapture e) r
           (if r \<and> canResume w then say (LogResumeInfo (getCapturedFrameCount w)) w1
            else if \<not> r then clearFrames w1 else w1,
            timelapseCapture m) = (out, w3, c3)"
  shows "handlePrintStarted e cfg j r (w, m) =
    (case out of
       Rejected err \<Rightarrow>
         (say (LogStartFailed err) w3,
          (if named then m\<lparr>currentPrintFilename := dn\<rparr> else m)\<lparr>timelapseCapture := c3\<rparr>)
     | Resolved \<Rightarrow>
         startWatchdog e cfg j
           (say LogCaptureStarted w3,
            (if named then m\<lparr>currentPrintFilename := dn\<rparr> else m)\<lparr>timelapseCapture := c3\<rparr>))"
proof (cases dn)
  case None
  with assms show ?thesis
    by (cases out; cases r; cases "canResume w")
      (simp_all add: handlePrintStarted.simps Let_def isCurrentlyCapturing_def
        del: startWatchdog.simps)
next
  case (Some n)
  with assms show ?thesis
    by (cases out; cases "n = []"; cases r; cases "canResume w")
      (simp_all add: handlePrintStarted.simps Let_def isCurrentlyCapturing_def
        del: startWatchdog.simps)
qed

lemma handlePrintStarted_started:
  assumes idle: "\<not> isCapturing (timelapseCapture m)" and job: "getJob e = Some dn"
    and mk: "tempDirOk e" and sp: "spawnCapture e \<noteq> SpawnThrows"
  obtains w' m' where "handlePrintStarted e cfg j r (w, m) = (w', m')"
    and "isCapturing (timelapseCapture m')"
    and "map fst (procs w') = map fst (procs w) @
           [if r \<and> getCapturedFrameCount w > 0 then plusOne (getHighestFrameNumber w) else 1]"
    and "if r \<and> getCapturedFrameCount w > 0 then files w' = files w
         else frameFiles w' = dropWhile (\<lambda>f. f \<notin> set (locked w)) (frameFiles w)"
    and "watchdogExpiry m' =
           (if watchdogTimeout cfg > 0 then Some (nowArm e + watchdogTimeout cfg * 1000)
            else watchdogExpiry m)"
    and "isFirstCheck m' = isFirstCheck m"
proof -
  define named where "named = (case dn of None \<Rightarrow> False | Some n \<Rightarrow> n \<noteq> [])"
  define w1 where "w1 = say (if named then LogPrintFile (the dn) else LogNoFileInfo)
                (say (LogPrintStarted j) w)"
  define m1 where "m1 = (if named then m\<lparr>currentPrintFilename := dn\<rparr> else m)"
  define w2 where "w2 = (if r \<and> canResume w then say (LogResumeInfo (getCapturedFrameCount w)) w1
               else if \<not> r then clearFrames w1 else w1)"
  have c1: "getCapturedFrameCount w1 = getCapturedFrameCount w" by (simp add: w1_def)
  have p2: "procs w2 = procs w" by (simp add: w2_def w1_def)
  have cond: "(r \<and> getCapturedFrameCount w2 > 0) = (r \<and> getCapturedFrameCount w > 0)"
    by (simp add: w2_def canResume_def c1)
  have hi: "r \<and> getCapturedFrameCount w > 0 \<Longrightarrow>
      getHighestFrameNumber w2 = getHighestFrameNumber w \<and> files w2 = files w"
    by (simp add: w2_def canResume_def c1) (simp add: w1_def)
  have cl: "frameFiles (clearFrames w2) = dropWhile (\<lambda>f. f \<notin> set (locked w)) (frameFiles w)"
    by (simp add: w2_def w1_def frameFiles_clearFrames dropWhile_twice)
  from startCapture_started [OF idle mk sp, of r w2] obtain w3 c3 where
    st: "startCapture (tempDirOk e) (spawnCapture e) r (w2, timelapseCapture m) = (Resolved, w3, c3)"
    and cap: "isCapturing c3"
    and pr: "map fst (procs w3) = map fst (procs w2) @
           [if r \<and> getCapturedFrameCount w2 > 0 then plusOne (getHighestFrameNumber w2) else 1]"
    and fl: "if r \<and> getCapturedFrameCount w2 > 0 then files w3 = files w2
             else frameFiles w3 = frameFiles (clearFrames w2)"
    by blast
  have eq: "handlePrintStarted e cfg j r (w, m) =
      startWatchdog e cfg j (say LogCaptureStarted w3, m1\<lparr>timelapseCapture := c3\<rparr>)"
    using handlePrintStarted_go [OF idle job named_def w1_def st [unfolded w2_def], where cfg = cfg]
    by (simp add: m1_def)
  obtain w' m' where res: "startWatchdog e cfg j (say LogCaptureStarted w3, m1\<lparr>timelapseCapture := c3\<rparr>)
      = (w', m')" by (metis surj_pair)
  have wm: "watchdogExpiry m1 = watchdogExpiry m" "isFirstCheck m1 = isFirstCheck m"
    by (simp_all add: m1_def)
  from res cap pr fl cond hi p2 wm cl have
    "isCapturing (timelapseCapture m')"
    "map fst (procs w') = map fst (procs w) @
           [if r \<and> getCapturedFrameCount w > 0 then plusOne (getHighestFrameNumber w) else 1]"
    "if r \<and> getCapturedFrameCount w > 0 then files w' = files w
     else frameFiles w' = dropWhile (\<lambda>f. f \<notin> set (locked w)) (frameFiles w)"
    "watchdogExpiry m' =
           (if watchdogTimeout cfg > 0 then Some (nowArm e + watchdogTimeout cfg * 1000)
            else watchdogExpiry m)"
    "isFirstCheck m' = isFirstCheck m"
    by (auto split: if_splits)
  with eq res show thesis by (intro that [of w' m']) simp_all
qed

lemma checkWatchdog_quiet:
  assumes "watchdogTimeout cfg \<le> 0 \<or> \<not> isCapturing (timelapseCapture m)
             \<or> watchdogExpiry m = None \<or> nowCheck e < the (watchdogExpiry m)"
  shows "checkWatchdog e cfg (w, m) = (w, m)"
  using assms by (auto simp: checkWatchdog.simps isCurrentlyCapturing_def)

lemma pair: "x = (fst x, snd x)"
  by simp

lemma printingEnv_fields:
  "getStatus printingEnv = Some \<lparr>printer_state = PRINTING, job = Some \<lparr>job_id = Some 7\<rparr>\<rparr>"
  "getJob printingEnv = Some (Some ''benchy.gcode'')" "tempDirOk printingEnv"
  "spawnCapture printingEnv = Spawned" "captureExit printingEnv = Some (120, Some 255)"
  "outputDirOk printingEnv" "encoder printingEnv = EncoderExit (Some 0)"
  "notifyExit printingEnv = NotifyExit (Some 0)" "nowArm printingEnv = 1000"
  "nowCheck printingEnv = 1001" "isoString printingEnv = ''2024-01-02T03:04:05.678Z''"
  "cwd printingEnv = ''/app''"
  by (simp_all add: printingEnv_def)

lemma exampleConfig_fields:
  "watchdogTimeout exampleConfig = 60" "outputDirectory exampleConfig = ''/out''"
  by (simp_all add: exampleConfig_def)

lemma newMonitor_fields:
  "isFirstCheck newMonitor" "\<not> isCapturing (timelapseCapture newMonitor)"
  "watchdogExpiry newMonitor = None" "currentPrintId newMonitor = None"
  "lastPrinterState newMonitor = None" "currentPrintFilename newMonitor = None"
  by (simp_all add: newMonitor_def newCapture_def)

lemma threeFrames_canResume: "canResume threeFrames"
  by (simp add: canResume_def threeFrames_count)

lemma emptyWorld_count: "getCapturedFrameCount emptyWorld = 0"
  by (simp add: getCapturedFrameCount_def emptyWorld_fields)

lemma resumed_eq:
  "resumed =
     (threeFrames\<lparr>procs := [(4, Running)],
        console := [LogPrinterState, LogStartupResume, LogPrintStarted 7,
          LogPrintFile ''benchy.gcode'', LogResumeInfo 3, LogResuming 3 4, LogCaptureStarted,
          LogWatchdogStarted 7]\<rparr>,
      \<lparr>timelapseCapture = \<lparr>captureProcess = Some 0, isCapturing = True\<rparr>,
       currentPrintId = Some 7, currentPrintFilename = Some ''benchy.gcode'',
       lastPrinterState = Some PRINTING, watchdogExpiry = Some 61000, isFirstCheck = False\<rparr>)"
  by code_simp

lemma resumed_fields:
  "isCapturing (timelapseCapture (snd resumed))"
  "captureProcess (timelapseCapture (snd resumed)) = Some 0"
  "watchdogExpiry (snd resumed) = Some 61000" "currentPrintId (snd resumed) = Some 7"
  "lastPrinterState (snd resumed) = Some PRINTING" "\<not> isFirstCheck (snd resumed)"
  "files (fst resumed) = files threeFrames" "videos (fst resumed) = []"
  "notifications (fst resumed) = []" "signals (fst resumed) = []"
  "getCapturedFrameCount (fst resumed) = 3" "locked (fst resumed) = []"
  "frameFiles (fst resumed) = frameFiles threeFrames"
  by (simp_all add: resumed_eq threeFrames_fields getCapturedFrameCount_def isFrameFile_def
      startsWith_def endsWith_def frameFiles_def)

lemma resumed_path:
  "generateOutputPath printingEnv exampleConfig (snd resumed) (Some 7) =
     ''/out/timelapse_benchy_2024-01-02T03-04-05.mp4''"
  by code_simp

lemma generateOutputPath_env [simp]:
  "generateOutputPath (e\<lparr>nowCheck := t\<rparr>) cfg m j = generateOutputPath e cfg m j"
  "generateOutputPath (e\<lparr>encoder := enc\<rparr>) cfg m j = generateOutputPath e cfg m j"
  by (simp_all add: generateOutputPath_def)

subsection \<open>C3: the watchdog\<close>

text \<open>
  C3. \<open>checkWatchdog\<close> does nothing when the timeout is not positive, when no capture
  is active, when no deadline is set, or when the clock is before the deadline. Otherwise
  it fires: it runs \<open>handlePrintFinished\<close> with the stored job id, whatever printer
  state was seen last. That clears the deadline, stops the capture of a stored handle
  with SIGTERM (a capturing manager stores a handle at every reachable state, see C1),
  and assembles; when the assembly succeeds the video is written at the
  path made from the stored job id, the frames are deleted (\<open>clearFrames\<close>: all of them
  when no unlink throws, else those before the first one whose unlink throws) and the
  notification runs for that path; when it fails, the files, videos and notifications are
  as before. The stored printer state and job id stay.
\<close>

theorem watchdog_expiry:
  assumes "checkWatchdog e cfg (w, m) = (w', m')"
  shows "if watchdogTimeout cfg \<le> 0 \<or> \<not> isCapturing (timelapseCapture m)
            \<or> watchdogExpiry m = None \<or> nowCheck e < the (watchdogExpiry m)
         then w' = w \<and> m' = m
         else (w', m') = handlePrintFinished e cfg (currentPrintId m) (say LogWatchdogTriggered w, m) \<and>
              LogWatchdogTriggered \<in> set (console w') \<and>
              LogPrintFinished (currentPrintId m) \<in> set (console w') \<and>
              watchdogExpiry m' = None \<and>
              lastPrinterState m' = lastPrinterState m \<and> currentPrintId m' = currentPrintId m \<and>
              (captureProcess (timelapseCapture m) \<noteq> None \<longrightarrow>
                 \<not> isCapturing (timelapseCapture m') \<and>
                 (the (captureProcess (timelapseCapture m)), SIGTERM, 0) \<in> set (signals w')) \<and>
              (if outputDirOk e \<and> getCapturedFrameCount w > 0 \<and> encoder e = EncoderExit (Some 0)
               then frameFiles w' = dropWhile (\<lambda>f. f \<notin> set (locked w)) (frameFiles w) \<and>
                    ((\<forall>f \<in> set (frameFiles w). f \<notin> set (locked w)) \<longrightarrow> frameFiles w' = []) \<and>
                    videos w' = videos w @ [generateOutputPath e cfg m (currentPrintId m)] \<and>
                    notifications w' =
                      (case notifyExit e of
                         NotifyErrorEvent \<Rightarrow> notifications w
                       | NotifyExit code \<Rightarrow>
                           notifications w @ [generateOutputPath e cfg m (currentPrintId m)])
               else files w' = files w \<and> videos w' = videos w \<and>
                    notifications w' = notifications w)"
proof (cases "watchdogTimeout cfg \<le> 0 \<or> \<not> isCapturing (timelapseCapture m)
            \<or> watchdogExpiry m = None \<or> nowCheck e < the (watchdogExpiry m)")
  case True
  with assms show ?thesis
    by (auto simp: checkWatchdog.simps isCurrentlyCapturing_def split: if_splits)
next
  case False
  with assms have h: "handlePrintFinished e cfg (currentPrintId m) (say LogWatchdogTriggered w, m)
      = (w', m')"
    by (auto simp: checkWatchdog.simps isCurrentlyCapturing_def split: if_splits)
  from False have cap: "isCapturing (timelapseCapture m)" by simp
  have sig: "captureProcess (timelapseCapture m) \<noteq> None \<longrightarrow>
      (the (captureProcess (timelapseCapture m)), SIGTERM, 0) \<in> set (signals w')"
  proof
    assume "captureProcess (timelapseCapture m) \<noteq> None"
    then obtain p where p: "captureProcess (timelapseCapture m) = Some p" by auto
    from handlePrintFinished_signals [OF h cap p] p show
      "(the (captureProcess (timelapseCapture m)), SIGTERM, 0) \<in> set (signals w')"
      by simp
  qed
  from handlePrintFinished_console [OF h]
  have con: "LogWatchdogTriggered \<in> set (console w')"
    "LogPrintFinished (currentPrintId m) \<in> set (console w')"
    by auto
  from False cap handlePrintFinished_monitor [OF h] handlePrintFinished_frames [OF h] h sig con
  show ?thesis by (auto simp: dropWhile_eq_Nil_conv split: if_splits notify_result.splits)
qed

text \<open>
  After the resumed first poll the deadline is 61000. At clock 1001 nothing happens; at
  clock 70000 the watchdog fires, the capture is stopped and the video of job 7 is made
  and announced.
\<close>

theorem watchdog_expiry_witness:
  "checkWatchdog printingEnv exampleConfig resumed = resumed \<and>
   LogWatchdogTriggered \<in> set (console (fst (checkWatchdog (printingEnv\<lparr>nowCheck := 70000\<rparr>)
      exampleConfig resumed))) \<and>
   watchdogExpiry (snd (checkWatchdog (printingEnv\<lparr>nowCheck := 70000\<rparr>) exampleConfig resumed))
     = None \<and>
   \<not> isCapturing (timelapseCapture (snd (checkWatchdog (printingEnv\<lparr>nowCheck := 70000\<rparr>)
      exampleConfig resumed))) \<and>
   (0, SIGTERM, 0) \<in> set (signals (fst (checkWatchdog (printingEnv\<lparr>nowCheck := 70000\<rparr>)
      exampleConfig resumed))) \<and>
   frameFiles (fst (checkWatchdog (printingEnv\<lparr>nowCheck := 70000\<rparr>) exampleConfig resumed)) = [] \<and>
   videos (fst (checkWatchdog (printingEnv\<lparr>nowCheck := 70000\<rparr>) exampleConfig resumed))
     = [''/out/timelapse_benchy_2024-01-02T03-04-05.mp4''] \<and>
   notifications (fst (checkWatchdog (printingEnv\<lparr>nowCheck := 70000\<rparr>) exampleConfig resumed))
     = [''/out/timelapse_benchy_2024-01-02T03-04-05.mp4'']"
proof -
  obtain w1 m1 where r1:
    "checkWatchdog printingEnv exampleConfig (fst resumed, snd resumed) = (w1, m1)"
    by (metis surj_pair)
  from watchdog_expiry [OF r1] have "w1 = fst resumed \<and> m1 = snd resumed"
    by (simp add: resumed_fields printingEnv_fields exampleConfig_fields)
  with r1 have a: "checkWatchdog printingEnv exampleConfig resumed = resumed" by simp
  obtain w2 m2 where r2:
    "checkWatchdog (printingEnv\<lparr>nowCheck := 70000\<rparr>) exampleConfig (fst resumed, snd resumed)
       = (w2, m2)"
    by (metis surj_pair)
  from watchdog_expiry [OF r2] resumed_path
  have b: "LogWatchdogTriggered \<in> set (console w2) \<and> watchdogExpiry m2 = None \<and>
      \<not> isCapturing (timelapseCapture m2) \<and> (0, SIGTERM, 0) \<in> set (signals w2) \<and>
      frameFiles w2 = [] \<and> videos w2 = [''/out/timelapse_benchy_2024-01-02T03-04-05.mp4''] \<and>
      notifications w2 = [''/out/timelapse_benchy_2024-01-02T03-04-05.mp4'']"
    by (simp add: resumed_fields printingEnv_fields exampleConfig_fields)
  from a b r2 show ?thesis by simp
qed

subsection \<open>C4: the first poll\<close>

lemma handlePrintStarted_failed:
  assumes idle: "\<not> isCapturing (timelapseCapture m)"
    and fail: "getJob e = None \<or> \<not> tempDirOk e \<or> spawnCapture e = SpawnThrows"
  obtains w' m' where "handlePrintStarted e cfg j r (w, m) = (w', m')"
    and "\<not> isCapturing (timelapseCapture m')" and "procs w' = procs w"
    and "isFirstCheck m' = isFirstCheck m" and "getJob e = None \<Longrightarrow> files w' = files w"
proof (cases "getJob e")
  case None
  with idle have "handlePrintStarted e cfg j r (w, m) =
      (say (LogStartFailed JobFetchError) (say (LogPrintStarted j) w), m)"
    by (simp add: handlePrintStarted.simps isCurrentlyCapturing_def)
  with idle show thesis
    by (intro that [of "say (LogStartFailed JobFetchError) (say (LogPrintStarted j) w)" m])
      simp_all
next
  case (Some dn)
  with fail have f: "\<not> tempDirOk e \<or> spawnCapture e = SpawnThrows" by simp
  define named where "named = (case dn of None \<Rightarrow> False | Some n \<Rightarrow> n \<noteq> [])"
  define w1 where "w1 = say (if named then LogPrintFile (the dn) else LogNoFileInfo)
                (say (LogPrintStarted j) w)"
  define m1 where "m1 = (if named then m\<lparr>currentPrintFilename := dn\<rparr> else m)"
  define w2 where "w2 = (if r \<and> canResume w then say (LogResumeInfo (getCapturedFrameCount w)) w1
               else if \<not> r then clearFrames w1 else w1)"
  have p2: "procs w2 = procs w" by (simp add: w2_def w1_def)
  from startCapture_failed [OF idle f, of r w2] obtain err w3 where
    st: "startCapture (tempDirOk e) (spawnCapture e) r (w2, timelapseCapture m)
           = (Rejected err, w3, timelapseCapture m)"
    and p3: "procs w3 = procs w2"
    by blast
  have eq: "handlePrintStarted e cfg j r (w, m) =
      (say (LogStartFailed err) w3, m1\<lparr>timelapseCapture := timelapseCapture m\<rparr>)"
    using handlePrintStarted_go [OF idle Some named_def w1_def st [unfolded w2_def], where cfg = cfg]
    by (simp add: m1_def)
  from idle p2 p3 Some show thesis
    by (intro that [OF eq]) (simp_all add: m1_def)
qed

text \<open>
  C4, as the code has it. On the first poll of an idle monitor, when the status request
  succeeds and the printer prints with a job id: the job details are requested first, in
  the same \<^verbatim>\<open>try\<close> as the start. When that request, the temp directory and the spawn
  do not fail, and the clock at the watchdog check is before the new deadline, a capture
  is started and the watchdog is armed (when its timeout is positive), with frames present
  at start number \<open>getHighestFrameNumber() + 1\<close> and no file touched, and with no frames
  present at start number 1. When one of the three fails, no capture is started, nothing
  is spawned, and PRINTING is stored all the same; the files are untouched when it is the
  job request that failed. If the printer does not print and frames exist, \<open>clearFrames\<close>
  runs (all frames are deleted when no unlink throws, else those before the first one
  whose unlink throws) and nothing is spawned.
\<close>

theorem first_poll:
  assumes first: "isFirstCheck m" and idle: "\<not> isCapturing (timelapseCapture m)"
    and st: "getStatus e = Some status" and cs: "checkStatus e cfg (w, m) = (w', m')"
  shows "(printer_state status = PRINTING \<and> jobIdOf status \<noteq> None \<and> getJob e \<noteq> None \<and>
          tempDirOk e \<and> spawnCapture e \<noteq> SpawnThrows \<and>
          (watchdogTimeout cfg > 0 \<longrightarrow> nowCheck e < nowArm e + watchdogTimeout cfg * 1000) \<longrightarrow>
            isCapturing (timelapseCapture m') \<and> \<not> isFirstCheck m' \<and>
            watchdogExpiry m' =
              (if watchdogTimeout cfg > 0 then Some (nowArm e + watchdogTimeout cfg * 1000)
               else watchdogExpiry m) \<and>
            (if canResume w
             then map fst (procs w') = map fst (procs w) @ [plusOne (getHighestFrameNumber w)] \<and>
                  files w' = files w
             else map fst (procs w') = map fst (procs w) @ [1] \<and> frameFiles w' = [])) \<and>
         (printer_state status = PRINTING \<and> jobIdOf status \<noteq> None \<and>
          (getJob e = None \<or> \<not> tempDirOk e \<or> spawnCapture e = SpawnThrows) \<longrightarrow>
            \<not> isCapturing (timelapseCapture m') \<and> procs w' = procs w \<and>
            lastPrinterState m' = Some PRINTING \<and> \<not> isFirstCheck m' \<and>
            (getJob e = None \<longrightarrow> files w' = files w)) \<and>
         (printer_state status \<noteq> PRINTING \<and> canResume w \<longrightarrow>
            frameFiles w' = dropWhile (\<lambda>f. f \<notin> set (locked w)) (frameFiles w) \<and>
            ((\<forall>f \<in> set (frameFiles w). f \<notin> set (locked w)) \<longrightarrow> frameFiles w' = []) \<and>
            procs w' = procs w \<and>
            \<not> isCapturing (timelapseCapture m') \<and> \<not> isFirstCheck m')"
proof (intro conjI)
  show "printer_state status = PRINTING \<and> jobIdOf status \<noteq> None \<and> getJob e \<noteq> None \<and>
          tempDirOk e \<and> spawnCapture e \<noteq> SpawnThrows \<and>
          (watchdogTimeout cfg > 0 \<longrightarrow> nowCheck e < nowArm e + watchdogTimeout cfg * 1000) \<longrightarrow>
            isCapturing (timelapseCapture m') \<and> \<not> isFirstCheck m' \<and>
            watchdogExpiry m' =
              (if watchdogTimeout cfg > 0 then Some (nowArm e + watchdogTimeout cfg * 1000)
               else watchdogExpiry m) \<and>
            (if canResume w
             then map fst (procs w') = map fst (procs w) @ [plusOne (getHighestFrameNumber w)] \<and>
                  files w' = files w
             else map fst (procs w') = map fst (procs w) @ [1] \<and> frameFiles w' = [])"
  proof
    assume a: "printer_state status = PRINTING \<and> jobIdOf status \<noteq> None \<and> getJob e \<noteq> None \<and>
          tempDirOk e \<and> spawnCapture e \<noteq> SpawnThrows \<and>
          (watchdogTimeout cfg > 0 \<longrightarrow> nowCheck e < nowArm e + watchdogTimeout cfg * 1000)"
    then obtain j dn where j: "jobIdOf status = Some j" and dn: "getJob e = Some dn" by auto
    define w0 where "w0 = say (if canResume w then LogStartupResume else LogStartupFresh)
                (say LogPrinterState w)"
    define m0 where "m0 = m\<lparr>isFirstCheck := False\<rparr>"
    have idle0: "\<not> isCapturing (timelapseCapture m0)" using idle by (simp add: m0_def)
    from a have mk: "tempDirOk e" and sp: "spawnCapture e \<noteq> SpawnThrows" by simp_all
    from handlePrintStarted_started [OF idle0 dn mk sp, of cfg j "canResume w" w0]
    obtain w1 m1 where hs: "handlePrintStarted e cfg j (canResume w) (w0, m0) = (w1, m1)"
      and cap: "isCapturing (timelapseCapture m1)"
      and pr: "map fst (procs w1) = map fst (procs w0) @
           [if canResume w \<and> getCapturedFrameCount w0 > 0
            then plusOne (getHighestFrameNumber w0) else 1]"
      and fl: "if canResume w \<and> getCapturedFrameCount w0 > 0 then files w1 = files w0
             else frameFiles w1 = dropWhile (\<lambda>f. f \<notin> set (locked w0)) (frameFiles w0)"
      and wd: "watchdogExpiry m1 =
           (if watchdogTimeout cfg > 0 then Some (nowArm e + watchdogTimeout cfg * 1000)
            else watchdogExpiry m0)"
      and fc: "isFirstCheck m1 = isFirstCheck m0"
      by blast
    define m2 where "m2 = m1\<lparr>lastPrinterState := Some PRINTING, currentPrintId := Some j\<rparr>"
    have "checkStatus e cfg (w, m) = checkWatchdog e cfg (w1, m2)"
      using checkStatus_first_start [OF st first _ j, of cfg w] a hs
      by (simp add: w0_def m0_def m2_def)
    also have "\<dots> = (w1, m2)"
      using a wd by (intro checkWatchdog_quiet) (simp add: m2_def)
    finally have res: "w' = w1" "m' = m2" using cs by simp_all
    have w0: "procs w0 = procs w" "getCapturedFrameCount w0 = getCapturedFrameCount w"
      "getHighestFrameNumber w0 = getHighestFrameNumber w" "files w0 = files w"
      "frameFiles w0 = frameFiles w"
      by (simp_all add: w0_def)
    have none: "\<not> canResume w \<Longrightarrow> frameFiles w = []"
      by (simp add: canResume_def count_0_frameFiles)
    from res cap pr fl wd fc w0 none
    show "isCapturing (timelapseCapture m') \<and> \<not> isFirstCheck m' \<and>
            watchdogExpiry m' =
              (if watchdogTimeout cfg > 0 then Some (nowArm e + watchdogTimeout cfg * 1000)
               else watchdogExpiry m) \<and>
            (if canResume w
             then map fst (procs w') = map fst (procs w) @ [plusOne (getHighestFrameNumber w)] \<and>
                  files w' = files w
             else map fst (procs w') = map fst (procs w) @ [1] \<and> frameFiles w' = [])"
      by (simp add: m2_def m0_def canResume_def split: if_splits)
  qed
next
  show "printer_state status = PRINTING \<and> jobIdOf status \<noteq> None \<and>
          (getJob e = None \<or> \<not> tempDirOk e \<or> spawnCapture e = SpawnThrows) \<longrightarrow>
            \<not> isCapturing (timelapseCapture m') \<and> procs w' = procs w \<and>
            lastPrinterState m' = Some PRINTING \<and> \<not> isFirstCheck m' \<and>
            (getJob e = None \<longrightarrow> files w' = files w)"
  proof
    assume a: "printer_state status = PRINTING \<and> jobIdOf status \<noteq> None \<and>
          (getJob e = None \<or> \<not> tempDirOk e \<or> spawnCapture e = SpawnThrows)"
    then obtain j where j: "jobIdOf status = Some j" by auto
    define w0 where "w0 = say (if canResume w then LogStartupResume else LogStartupFresh)
                (say LogPrinterState w)"
    define m0 where "m0 = m\<lparr>isFirstCheck := False\<rparr>"
    have idle0: "\<not> isCapturing (timelapseCapture m0)" using idle by (simp add: m0_def)
    from a have fail: "getJob e = None \<or> \<not> tempDirOk e \<or> spawnCapture e = SpawnThrows"
      by simp
    from handlePrintStarted_failed [OF idle0 fail, of cfg j "canResume w" w0]
    obtain w1 m1 where hs: "handlePrintStarted e cfg j (canResume w) (w0, m0) = (w1, m1)"
      and nc: "\<not> isCapturing (timelapseCapture m1)" and pr: "procs w1 = procs w0"
      and fc: "isFirstCheck m1 = isFirstCheck m0"
      and fl: "getJob e = None \<Longrightarrow> files w1 = files w0"
      by blast
    define m2 where "m2 = m1\<lparr>lastPrinterState := Some PRINTING, currentPrintId := Some j\<rparr>"
    have "checkStatus e cfg (w, m) = checkWatchdog e cfg (w1, m2)"
      using checkStatus_first_start [OF st first _ j, of cfg w] a hs
      by (simp add: w0_def m0_def m2_def)
    also have "\<dots> = (w1, m2)"
      using nc by (intro checkWatchdog_quiet) (simp add: m2_def)
    finally have res: "w' = w1" "m' = m2" using cs by simp_all
    have w0: "procs w0 = procs w" "files w0 = files w" by (simp_all add: w0_def)
    from res nc pr fc fl w0
    show "\<not> isCapturing (timelapseCapture m') \<and> procs w' = procs w \<and>
            lastPrinterState m' = Some PRINTING \<and> \<not> isFirstCheck m' \<and>
            (getJob e = None \<longrightarrow> files w' = files w)"
      by (simp add: m2_def m0_def)
  qed
next
  show "printer_state status \<noteq> PRINTING \<and> canResume w \<longrightarrow>
            frameFiles w' = dropWhile (\<lambda>f. f \<notin> set (locked w)) (frameFiles w) \<and>
            ((\<forall>f \<in> set (frameFiles w). f \<notin> set (locked w)) \<longrightarrow> frameFiles w' = []) \<and>
            procs w' = procs w \<and>
            \<not> isCapturing (timelapseCapture m') \<and> \<not> isFirstCheck m'"
  proof
    assume b: "printer_state status \<noteq> PRINTING \<and> canResume w"
    define m1 where "m1 = m\<lparr>isFirstCheck := False, lastPrinterState := Some (printer_state status),
          currentPrintId := jobIdOf status\<rparr>"
    have "checkStatus e cfg (w, m) =
      checkWatchdog e cfg (clearFrames (say LogStartupStale (say LogPrinterState w)), m1)"
      using checkStatus_first_other [OF st first, of cfg w] b by (simp add: m1_def)
    also have "\<dots> = (clearFrames (say LogStartupStale (say LogPrinterState w)), m1)"
      using idle by (intro checkWatchdog_quiet) (simp add: m1_def)
    finally have "w' = clearFrames (say LogStartupStale (say LogPrinterState w))" "m' = m1"
      using cs by simp_all
    with idle show "frameFiles w' = dropWhile (\<lambda>f. f \<notin> set (locked w)) (frameFiles w) \<and>
            ((\<forall>f \<in> set (frameFiles w). f \<notin> set (locked w)) \<longrightarrow> frameFiles w' = []) \<and>
            procs w' = procs w \<and>
            \<not> isCapturing (timelapseCapture m') \<and> \<not> isFirstCheck m'"
      by (simp add: m1_def frameFiles_clearFrames dropWhile_eq_Nil_conv)
  qed
qed

text \<open>
  Job 7 is printing. With frames 1 to 3 the capture resumes at frame 4 and the deadline is
  61000; with no directory it starts at frame 1; with a temp directory that cannot be
  made no capture starts. An idle printer with frames 1 to 3: the frames are cleared and
  no child is spawned.
\<close>

theorem first_poll_witness:
  "isCapturing (timelapseCapture (snd resumed)) \<and>
   map fst (procs (fst resumed)) = [4] \<and> files (fst resumed) = files threeFrames \<and>
   watchdogExpiry (snd resumed) = Some 61000 \<and>
   isCapturing (timelapseCapture (snd (checkStatus printingEnv exampleConfig (emptyWorld, newMonitor)))) \<and>
   map fst (procs (fst (checkStatus printingEnv exampleConfig (emptyWorld, newMonitor)))) = [1] \<and>
   \<not> isCapturing (timelapseCapture (snd (checkStatus (printingEnv\<lparr>tempDirOk := False\<rparr>)
      exampleConfig (threeFrames, newMonitor)))) \<and>
   procs (fst (checkStatus (printingEnv\<lparr>tempDirOk := False\<rparr>)
      exampleConfig (threeFrames, newMonitor))) = [] \<and>
   frameFiles (fst (checkStatus
      (printingEnv\<lparr>getStatus := Some \<lparr>printer_state = IDLE, job = None\<rparr>\<rparr>)
      exampleConfig (threeFrames, newMonitor))) = [] \<and>
   procs (fst (checkStatus
      (printingEnv\<lparr>getStatus := Some \<lparr>printer_state = IDLE, job = None\<rparr>\<rparr>)
      exampleConfig (threeFrames, newMonitor))) = []"
proof -
  have e: "canResume threeFrames" "\<not> canResume emptyWorld"
    by (simp_all add: canResume_def threeFrames_count emptyWorld_count)
  have j: "jobIdOf \<lparr>printer_state = PRINTING, job = Some \<lparr>job_id = Some 7\<rparr>\<rparr> = Some 7"
    by (simp add: jobIdOf_def)
  from first_poll [OF newMonitor_fields(1,2) printingEnv_fields(1) pair,
      where cfg = exampleConfig and w = threeFrames]
    first_poll [OF newMonitor_fields(1,2) printingEnv_fields(1) pair,
      where cfg = exampleConfig and w = emptyWorld]
    first_poll [OF newMonitor_fields(1,2) _ pair,
      where e = "printingEnv\<lparr>tempDirOk := False\<rparr>"
        and status = "\<lparr>printer_state = PRINTING, job = Some \<lparr>job_id = Some 7\<rparr>\<rparr>"
        and cfg = exampleConfig and w = threeFrames]
    first_poll [OF newMonitor_fields(1,2) _ pair,
      where e = "printingEnv\<lparr>getStatus := Some \<lparr>printer_state = IDLE, job = None\<rparr>\<rparr>"
        and status = "\<lparr>printer_state = IDLE, job = None\<rparr>"
        and cfg = exampleConfig and w = threeFrames]
    e j
  show ?thesis
    by (simp add: printingEnv_fields exampleConfig_fields newMonitor_fields threeFrames_highest
        threeFrames_fields emptyWorld_fields resumed_def plusOne_small threeFrames_frames)
qed

text \<open>
  C4 as stated fails: job 7 is printing and frames 1 to 3 exist, but the request for the
  job details is rejected. No capture starts, nothing is spawned, and the monitor stores
  PRINTING as the last state, so that no later poll sees the change to PRINTING.
\<close>

theorem first_poll_job_request_counterexample:
  "\<not> isCapturing (timelapseCapture (snd (checkStatus (printingEnv\<lparr>getJob := None\<rparr>)
      exampleConfig (threeFrames, newMonitor)))) \<and>
   procs (fst (checkStatus (printingEnv\<lparr>getJob := None\<rparr>) exampleConfig
      (threeFrames, newMonitor))) = [] \<and>
   lastPrinterState (snd (checkStatus (printingEnv\<lparr>getJob := None\<rparr>) exampleConfig
      (threeFrames, newMonitor))) = Some PRINTING"
  by code_simp

subsection \<open>C5: assembly failures\<close>

text \<open>
  C5, as the code has it. With no frame file \<open>assembleVideo\<close> fails: with the
  no-frames error when the output directory could be made, and with the output-directory
  error otherwise, since the directory is made first. \<open>assembleVideo\<close> deletes no
  file, and succeeds exactly when the directory could be made, a frame exists and the
  encoder exits with 0. In \<open>handlePrintFinished\<close> the frames are deleted exactly when a
  capture was active and the assembly succeeded (\<open>clearFrames\<close>: all of them when no
  unlink throws, else those before the first one whose unlink throws); in every other
  case the files, the videos and the notifications are as before.
\<close>

theorem frames_kept_on_failure:
  "(getCapturedFrameCount w = 0 \<longrightarrow>
      assembleVideo ok enc path w =
        (Rejected (if ok then NoFramesCaptured else OutputDirectoryFailed), w)) \<and>
   files (snd (assembleVideo ok enc path w)) = files w \<and>
   (fst (assembleVideo ok enc path w) = Resolved \<longleftrightarrow>
      ok \<and> getCapturedFrameCount w > 0 \<and> enc = EncoderExit (Some 0)) \<and>
   (handlePrintFinished e cfg j (w, m) = (w', m') \<longrightarrow>
      (if isCapturing (timelapseCapture m) \<and> outputDirOk e \<and> getCapturedFrameCount w > 0
            \<and> encoder e = EncoderExit (Some 0)
       then frameFiles w' = dropWhile (\<lambda>f. f \<notin> set (locked w)) (frameFiles w) \<and>
            ((\<forall>f \<in> set (frameFiles w). f \<notin> set (locked w)) \<longrightarrow> frameFiles w' = []) \<and>
            videos w' = videos w @ [generateOutputPath e cfg m j]
       else files w' = files w \<and> videos w' = videos w \<and> notifications w' = notifications w))"
proof -
  have a: "getCapturedFrameCount w = 0 \<longrightarrow>
      assembleVideo ok enc path w =
        (Rejected (if ok then NoFramesCaptured else OutputDirectoryFailed), w)"
    by (simp add: assembleVideo_def)
  have b: "files (snd (assembleVideo ok enc path w)) = files w"
    using assembleVideo_world(1) [of ok enc path w] by (metis prod.collapse)
  have c: "fst (assembleVideo ok enc path w) = Resolved \<longleftrightarrow>
      ok \<and> getCapturedFrameCount w > 0 \<and> enc = EncoderExit (Some 0)"
    using assembleVideo_world(6) [of ok enc path w] by (metis prod.collapse)
  have d: "handlePrintFinished e cfg j (w, m) = (w', m') \<longrightarrow>
      (if isCapturing (timelapseCapture m) \<and> outputDirOk e \<and> getCapturedFrameCount w > 0
            \<and> encoder e = EncoderExit (Some 0)
       then frameFiles w' = dropWhile (\<lambda>f. f \<notin> set (locked w)) (frameFiles w) \<and>
            ((\<forall>f \<in> set (frameFiles w). f \<notin> set (locked w)) \<longrightarrow> frameFiles w' = []) \<and>
            videos w' = videos w @ [generateOutputPath e cfg m j]
       else files w' = files w \<and> videos w' = videos w \<and> notifications w' = notifications w)"
  proof
    assume "handlePrintFinished e cfg j (w, m) = (w', m')"
    from handlePrintFinished_frames [OF this] show
      "if isCapturing (timelapseCapture m) \<and> outputDirOk e \<and> getCapturedFrameCount w > 0
            \<and> encoder e = EncoderExit (Some 0)
       then frameFiles w' = dropWhile (\<lambda>f. f \<notin> set (locked w)) (frameFiles w) \<and>
            ((\<forall>f \<in> set (frameFiles w). f \<notin> set (locked w)) \<longrightarrow> frameFiles w' = []) \<and>
            videos w' = videos w @ [generateOutputPath e cfg m j]
       else files w' = files w \<and> videos w' = videos w \<and> notifications w' = notifications w"
      by (auto simp: dropWhile_eq_Nil_conv split: if_splits)
  qed
  from a b c d show ?thesis by (intro conjI)
qed

text \<open>
  With no frames and a usable output directory the error is the no-frames error. After
  the resumed first poll, an encoder that exits with 1 leaves the three frames; one that
  exits with 0 gives the video and the frames are deleted.
\<close>

theorem frames_kept_on_failure_witness:
  "assembleVideo True (EncoderExit (Some 0)) ''/out/t.mp4'' emptyWorld =
     (Rejected NoFramesCaptured, emptyWorld) \<and>
   files (fst (handlePrintFinished (printingEnv\<lparr>encoder := EncoderExit (Some 1)\<rparr>)
      exampleConfig (Some 7) resumed)) = files threeFrames \<and>
   frameFiles (fst (handlePrintFinished printingEnv exampleConfig (Some 7) resumed)) = [] \<and>
   videos (fst (handlePrintFinished printingEnv exampleConfig (Some 7) resumed))
     = [''/out/timelapse_benchy_2024-01-02T03-04-05.mp4'']"
proof -
  obtain w1 m1 where r1:
    "handlePrintFinished (printingEnv\<lparr>encoder := EncoderExit (Some 1)\<rparr>) exampleConfig (Some 7)
       (fst resumed, snd resumed) = (w1, m1)"
    by (metis surj_pair)
  obtain w2 m2 where r2:
    "handlePrintFinished printingEnv exampleConfig (Some 7) (fst resumed, snd resumed) = (w2, m2)"
    by (metis surj_pair)
  from frames_kept_on_failure [where ok = True and enc = "EncoderExit (Some 0)" and path = "''/out/t.mp4''"
        and w = emptyWorld and e = "printingEnv\<lparr>encoder := EncoderExit (Some 1)\<rparr>"
        and cfg = exampleConfig and j = "Some 7" and m = "snd resumed" and w' = w1 and m' = m1]
  have a: "assembleVideo True (EncoderExit (Some 0)) ''/out/t.mp4'' emptyWorld =
     (Rejected NoFramesCaptured, emptyWorld)"
    by (simp add: emptyWorld_count)
  from frames_kept_on_failure [where w = "fst resumed" and m = "snd resumed"
        and e = "printingEnv\<lparr>encoder := EncoderExit (Some 1)\<rparr>" and cfg = exampleConfig
        and j = "Some 7" and w' = w1 and m' = m1] r1
  have b: "files w1 = files threeFrames"
    by (simp add: resumed_fields printingEnv_fields)
  from frames_kept_on_failure [where w = "fst resumed" and m = "snd resumed" and e = printingEnv
        and cfg = exampleConfig and j = "Some 7" and w' = w2 and m' = m2] r2 resumed_path
  have c: "frameFiles w2 = [] \<and> videos w2 = [''/out/timelapse_benchy_2024-01-02T03-04-05.mp4'']"
    by (simp add: resumed_fields printingEnv_fields)
  from a b c r1 r2 show ?thesis by simp
qed

text \<open>
  C5 as stated fails: with no frame file and an output directory that cannot be made,
  the error is the output-directory error, not the no-frames error.
\<close>

theorem assemble_error_order_counterexample:
  "getCapturedFrameCount emptyWorld = 0 \<and>
   assembleVideo False (EncoderExit (Some 0)) ''/out/t.mp4'' emptyWorld =
     (Rejected OutputDirectoryFailed, emptyWorld)"
  by (simp add: emptyWorld_count assembleVideo_def)

subsection \<open>C8: a failed status request\<close>

text \<open>
  C8. When the status request fails, the tick logs the error and goes on to the watchdog
  check, which is all it does: the stored printer state, the stored job id and the
  first-poll flag are unchanged; when the watchdog is not due nothing else changes, and
  when it is due it fires on this tick.
\<close>

theorem fetch_failure_tick:
  assumes "getStatus e = None" and "checkStatus e cfg (w, m) = (w', m')"
  shows "(w', m') = checkWatchdog e cfg (say LogApiError w, m) \<and>
         LogApiError \<in> set (console w') \<and>
         lastPrinterState m' = lastPrinterState m \<and> currentPrintId m' = currentPrintId m \<and>
         isFirstCheck m' = isFirstCheck m \<and>
         (if watchdogTimeout cfg \<le> 0 \<or> \<not> isCapturing (timelapseCapture m)
             \<or> watchdogExpiry m = None \<or> nowCheck e < the (watchdogExpiry m)
          then w' = say LogApiError w \<and> m' = m
          else LogWatchdogTriggered \<in> set (console w') \<and> watchdogExpiry m' = None)"
proof -
  from checkStatus_failed [OF assms(1), of cfg w m] assms(2)
  have cw: "checkWatchdog e cfg (say LogApiError w, m) = (w', m')" by simp
  have fire: "if watchdogTimeout cfg \<le> 0 \<or> \<not> isCapturing (timelapseCapture m)
             \<or> watchdogExpiry m = None \<or> nowCheck e < the (watchdogExpiry m)
          then w' = say LogApiError w \<and> m' = m
          else LogWatchdogTriggered \<in> set (console w') \<and> watchdogExpiry m' = None"
  proof (cases "watchdogTimeout cfg \<le> 0 \<or> \<not> isCapturing (timelapseCapture m)
             \<or> watchdogExpiry m = None \<or> nowCheck e < the (watchdogExpiry m)")
    case True
    with cw show ?thesis
      by (auto simp: checkWatchdog.simps isCurrentlyCapturing_def split: if_splits)
  next
    case False
    with cw have h: "handlePrintFinished e cfg (currentPrintId m)
        (say LogWatchdogTriggered (say LogApiError w), m) = (w', m')"
      by (auto simp: checkWatchdog.simps isCurrentlyCapturing_def split: if_splits)
    from handlePrintFinished_console(1) [OF h] handlePrintFinished_monitor(4) [OF h] False
    show ?thesis by auto
  qed
  have eq: "(w', m') = checkWatchdog e cfg (say LogApiError w, m)"
    using cw by simp
  have "LogApiError \<in> set (console (say LogApiError w))" by simp
  with checkWatchdog_monitor(7) [OF cw] have log: "LogApiError \<in> set (console w')"
    by blast
  note keep = checkWatchdog_monitor(1,2,3) [OF cw]
  show ?thesis
    by (intro conjI eq log keep fire)
qed

text \<open>
  After the resumed first poll, a failed request at clock 1001 only logs; at clock 70000
  the watchdog fires on that tick, with state PRINTING and job 7 still stored.
\<close>

theorem fetch_failure_tick_witness:
  "LogApiError \<in> set (console (fst (checkStatus (printingEnv\<lparr>getStatus := None\<rparr>)
      exampleConfig resumed))) \<and>
   snd (checkStatus (printingEnv\<lparr>getStatus := None\<rparr>) exampleConfig resumed) = snd resumed \<and>
   LogWatchdogTriggered \<in> set (console (fst (checkStatus
      (printingEnv\<lparr>getStatus := None, nowCheck := 70000\<rparr>) exampleConfig resumed))) \<and>
   watchdogExpiry (snd (checkStatus (printingEnv\<lparr>getStatus := None, nowCheck := 70000\<rparr>)
      exampleConfig resumed)) = None \<and>
   lastPrinterState (snd (checkStatus (printingEnv\<lparr>getStatus := None, nowCheck := 70000\<rparr>)
      exampleConfig resumed)) = Some PRINTING \<and>
   currentPrintId (snd (checkStatus (printingEnv\<lparr>getStatus := None, nowCheck := 70000\<rparr>)
      exampleConfig resumed)) = Some 7"
proof -
  obtain w1 m1 where r1:
    "checkStatus (printingEnv\<lparr>getStatus := None\<rparr>) exampleConfig (fst resumed, snd resumed)
       = (w1, m1)"
    by (metis surj_pair)
  obtain w2 m2 where r2:
    "checkStatus (printingEnv\<lparr>getStatus := None, nowCheck := 70000\<rparr>) exampleConfig
       (fst resumed, snd resumed) = (w2, m2)"
    by (metis surj_pair)
  from fetch_failure_tick [OF _ r1]
  have a: "LogApiError \<in> set (console w1) \<and> m1 = snd resumed"
    by (simp add: resumed_fields printingEnv_fields exampleConfig_fields)
  from fetch_failure_tick [OF _ r2]
  have b: "LogWatchdogTriggered \<in> set (console w2) \<and> watchdogExpiry m2 = None \<and>
      lastPrinterState m2 = Some PRINTING \<and> currentPrintId m2 = Some 7"
    by (simp add: resumed_fields printingEnv_fields exampleConfig_fields)
  from a b r1 r2 show ?thesis by simp
qed

subsection \<open>C9: job id 0\<close>

text \<open>
  C9. A status response whose job id is 0 gives no job id: the monitor stores \<open>None\<close>,
  the tick spawns nothing and starts no capture. In particular, on a later poll of a
  monitor that is not capturing, a change from a non-printing state to PRINTING with job
  id 0 only logs the state and stores it.
\<close>

theorem job_id_zero:
  assumes "getStatus e = Some status" and "job status = Some j" and "job_id j = Some 0"
    and "checkStatus e cfg (w, m) = (w', m')"
  shows "jobIdOf status = None \<and> currentPrintId m' = None \<and>
         length (procs w') = length (procs w) \<and>
         (isCapturing (timelapseCapture m') \<longrightarrow> isCapturing (timelapseCapture m)) \<and>
         (\<not> isFirstCheck m \<and> lastPrinterState m \<noteq> Some PRINTING \<and>
          printer_state status = PRINTING \<and> \<not> isCapturing (timelapseCapture m) \<longrightarrow>
            w' = say LogPrinterState w \<and>
            m' = m\<lparr>lastPrinterState := Some PRINTING, currentPrintId := None\<rparr>)"
proof -
  note nj = jobIdOf_zero [OF assms(2,3)]
  have quiet: "\<not> isFirstCheck m \<and> lastPrinterState m \<noteq> Some PRINTING \<and>
          printer_state status = PRINTING \<and> \<not> isCapturing (timelapseCapture m) \<longrightarrow>
            w' = say LogPrinterState w \<and>
            m' = m\<lparr>lastPrinterState := Some PRINTING, currentPrintId := None\<rparr>"
  proof
    assume a: "\<not> isFirstCheck m \<and> lastPrinterState m \<noteq> Some PRINTING \<and>
          printer_state status = PRINTING \<and> \<not> isCapturing (timelapseCapture m)"
    then have "checkStatus e cfg (w, m) =
        checkWatchdog e cfg
          (say LogPrinterState w, m\<lparr>lastPrinterState := Some PRINTING, currentPrintId := None\<rparr>)"
      using checkStatus_steady_nojob [OF assms(1) _ nj, of m cfg w] by simp
    also have "\<dots> = (say LogPrinterState w, m\<lparr>lastPrinterState := Some PRINTING, currentPrintId := None\<rparr>)"
      using a by (simp add: checkWatchdog.simps isCurrentlyCapturing_def)
    finally show "w' = say LogPrinterState w \<and>
            m' = m\<lparr>lastPrinterState := Some PRINTING, currentPrintId := None\<rparr>"
      using assms(4) by simp
  qed
  from quiet nj checkStatus_nojob [OF assms(1) nj assms(4)] show ?thesis by simp
qed

text \<open>
  The idle monitor sees PRINTING with job id 0 over three frames: it logs the state and
  stores PRINTING with no job id; nothing else changes.
\<close>

theorem job_id_zero_witness:
  "checkStatus (printingEnv\<lparr>getStatus := Some \<lparr>printer_state = PRINTING,
        job = Some \<lparr>job_id = Some 0\<rparr>\<rparr>\<rparr>) exampleConfig (threeFrames, idleMonitor) =
     (say LogPrinterState threeFrames,
      idleMonitor\<lparr>lastPrinterState := Some PRINTING, currentPrintId := None\<rparr>)"
proof -
  have i: "\<not> isFirstCheck idleMonitor" "lastPrinterState idleMonitor = Some IDLE"
    "\<not> isCapturing (timelapseCapture idleMonitor)"
    by (simp_all add: idleMonitor_def newMonitor_def newCapture_def)
  obtain w1 m1 where r1:
    "checkStatus (printingEnv\<lparr>getStatus := Some \<lparr>printer_state = PRINTING,
        job = Some \<lparr>job_id = Some 0\<rparr>\<rparr>\<rparr>) exampleConfig (threeFrames, idleMonitor) = (w1, m1)"
    by (metis surj_pair)
  from job_id_zero [OF _ _ _ r1, where status = "\<lparr>printer_state = PRINTING, job = Some \<lparr>job_id = Some 0\<rparr>\<rparr>"
        and j = "\<lparr>job_id = Some 0\<rparr>"] i
  have "w1 = say LogPrinterState threeFrames \<and>
      m1 = idleMonitor\<lparr>lastPrinterState := Some PRINTING, currentPrintId := None\<rparr>"
    by simp
  with r1 show ?thesis by simp
qed

subsection \<open>C10: the first poll without a job id\<close>

text \<open>
  C10, as the code has it. On the first poll, a response PRINTING without a job id spawns
  nothing and starts no capture, and \<open>clearFrames\<close> runs on the existing frames: they are
  unlinked in the order of the listing up to the first one whose unlink throws, so none
  is left when no unlink throws; the tick ends in the state in which the same response
  with printer state IDLE ends, but for the stored printer state.
\<close>

theorem first_poll_without_job:
  assumes "isFirstCheck m" and "getStatus e = Some status"
    and "printer_state status = PRINTING" and "jobIdOf status = None"
    and "checkStatus e cfg (w, m) = (w', m')"
  shows "length (procs w') = length (procs w) \<and>
         (isCapturing (timelapseCapture m') \<longrightarrow> isCapturing (timelapseCapture m)) \<and>
         frameFiles w' = dropWhile (\<lambda>f. f \<notin> set (locked w)) (frameFiles w) \<and>
         ((\<forall>f \<in> set (frameFiles w). f \<notin> set (locked w)) \<longrightarrow> frameFiles w' = []) \<and>
         (w', m') =
           (case checkStatus (e\<lparr>getStatus := Some (status\<lparr>printer_state := IDLE\<rparr>)\<rparr>) cfg (w, m) of
              (w2, m2) \<Rightarrow> (w2, m2\<lparr>lastPrinterState := Some PRINTING\<rparr>))"
proof -
  define w1 where "w1 = (if canResume w then clearFrames (say LogStartupStale (say LogPrinterState w))
        else say LogPrinterState w)"
  define m1 where "m1 = m\<lparr>isFirstCheck := False, currentPrintId := None\<rparr>"
  have ord: "\<And>x. m\<lparr>isFirstCheck := False, lastPrinterState := x, currentPrintId := None\<rparr>
      = m1\<lparr>lastPrinterState := x\<rparr>"
    by (cases m) (simp add: m1_def)
  have a: "checkStatus e cfg (w, m) = checkWatchdog e cfg (w1, m1\<lparr>lastPrinterState := Some PRINTING\<rparr>)"
    using checkStatus_first_other [OF assms(2,1), of cfg w] assms(3,4)
    by (simp add: w1_def ord)
  have j: "jobIdOf (status\<lparr>printer_state := IDLE\<rparr>) = None"
    using assms(4) by (simp add: jobIdOf_def)
  have b: "checkStatus (e\<lparr>getStatus := Some (status\<lparr>printer_state := IDLE\<rparr>)\<rparr>) cfg (w, m)
      = checkWatchdog e cfg (w1, m1\<lparr>lastPrinterState := Some IDLE\<rparr>)"
    using checkStatus_first_other [of "e\<lparr>getStatus := Some (status\<lparr>printer_state := IDLE\<rparr>)\<rparr>"
        "status\<lparr>printer_state := IDLE\<rparr>" m cfg w] assms(1) j
    by (simp add: w1_def ord checkWatchdog_env)
  have same: "(w', m') =
           (case checkStatus (e\<lparr>getStatus := Some (status\<lparr>printer_state := IDLE\<rparr>)\<rparr>) cfg (w, m) of
              (w2, m2) \<Rightarrow> (w2, m2\<lparr>lastPrinterState := Some PRINTING\<rparr>))"
    using assms(5) unfolding a b checkWatchdog_last
    by (simp split: prod.splits)
  note nj = checkStatus_nojob [OF assms(2,4,5)]
  from nj(5) [OF assms(1)]
  have fr: "frameFiles w' = dropWhile (\<lambda>f. f \<notin> set (locked w)) (frameFiles w)" .
  then have none: "(\<forall>f \<in> set (frameFiles w). f \<notin> set (locked w)) \<longrightarrow> frameFiles w' = []"
    by (simp add: dropWhile_eq_Nil_conv)
  from nj(2) nj(4) have keep: "length (procs w') = length (procs w)"
    "isCapturing (timelapseCapture m') \<longrightarrow> isCapturing (timelapseCapture m)"
    by simp_all
  show ?thesis by (intro conjI keep fr none same)
qed

text \<open>
  The first poll sees PRINTING without a job over three frames: the frames are cleared,
  no child is spawned and no capture is active.
\<close>

theorem first_poll_without_job_witness:
  "frameFiles (fst (checkStatus (printingEnv\<lparr>getStatus := Some \<lparr>printer_state = PRINTING,
        job = None\<rparr>\<rparr>) exampleConfig (threeFrames, newMonitor))) = [] \<and>
   length (procs (fst (checkStatus (printingEnv\<lparr>getStatus := Some \<lparr>printer_state = PRINTING,
        job = None\<rparr>\<rparr>) exampleConfig (threeFrames, newMonitor)))) = 0 \<and>
   \<not> isCapturing (timelapseCapture (snd (checkStatus (printingEnv\<lparr>getStatus :=
        Some \<lparr>printer_state = PRINTING, job = None\<rparr>\<rparr>) exampleConfig (threeFrames, newMonitor))))"
proof -
  have j: "jobIdOf \<lparr>printer_state = PRINTING, job = None\<rparr> = None"
    by (simp add: jobIdOf_def)
  obtain w1 m1 where r1:
    "checkStatus (printingEnv\<lparr>getStatus := Some \<lparr>printer_state = PRINTING, job = None\<rparr>\<rparr>)
       exampleConfig (threeFrames, newMonitor) = (w1, m1)"
    by (metis surj_pair)
  from first_poll_without_job [OF newMonitor_fields(1) _ _ j r1] newMonitor_fields(2)
  have "frameFiles w1 = [] \<and> length (procs w1) = 0 \<and> \<not> isCapturing (timelapseCapture m1)"
    by (simp add: threeFrames_fields)
  with r1 show ?thesis by simp
qed

text \<open>
  C10 as stated fails: the first poll sees PRINTING without a job over three frames, the
  unlink of the second frame throws, and two frames are left.
\<close>

theorem first_poll_without_job_counterexample:
  "frameFiles (fst (checkStatus (printingEnv\<lparr>getStatus := Some \<lparr>printer_state = PRINTING,
        job = None\<rparr>\<rparr>) exampleConfig (lockedFrame, newMonitor)))
     = [''img_00002.jpg'', ''img_00003.jpg'']"
  by code_simp

end
